theory Spec2Isabelle
  imports Main "HOL-Library.Word"
begin

section \<open>Machine integers and byte strings\<close>

text \<open>
  The client works with C++ \<open>int\<close> (32 bits, signed), \<open>unsigned int\<close> (32 bits) and
  \<open>uint64_t\<close>. They are modelled as \<open>int\<close> with the wrap-around written out.
  \<open>std::string\<close> and \<open>dsn::blob\<close> are sequences of bytes.
\<close>

definition u32 :: "int \<Rightarrow> int" where
  "u32 x = x mod 2 ^ 32"

definition s32 :: "int \<Rightarrow> int" where
  "s32 x = (x + 2 ^ 31) mod 2 ^ 32 - 2 ^ 31"

type_synonym byte = "8 word"
type_synonym blob = "byte list"

definition UINT16_MAX :: nat where
  "UINT16_MAX = 65535"

section \<open>Key codec\<close>

text \<open>
  Modelled from the spec: \<open>pegasus_generate_key\<close>, \<open>pegasus_generate_next_blob\<close> and
  \<open>pegasus_key_hash\<close> are declared in \<open>pegasus_utils.h\<close>, which is not among the sources.
  The spec gives the encoded form as a 2-byte big-endian length of the hash-key, the
  hash-key bytes, then the sort-key bytes. Every caller in the client rejects a hash-key
  of \<open>UINT16_MAX\<close> bytes or more before it encodes; beyond that length the prefix below
  keeps the low 16 bits. \<open>be16\<close> is the 2-byte big-endian prefix.
\<close>

definition be16 :: "nat \<Rightarrow> blob" where
  "be16 n = [of_nat ((n div 256) mod 256), of_nat (n mod 256)]"

text \<open>
  Modelled from the spec: \<open>pegasus_generate_key\<close> (from \<open>pegasus_utils.h\<close>) lays the key
  out as the length prefix, the hash-key, the sort-key.
\<close>

definition pegasus_generate_key :: "blob \<Rightarrow> blob \<Rightarrow> blob" where
  "pegasus_generate_key hash_key sortkey = be16 (length hash_key) @ hash_key @ sortkey"

text \<open>
  Modelled from the spec: the successor key is the smallest key above every key of the
  hash-key group, got by incrementing the encoded hash-key segment rather than appending
  to it: trailing \<open>0xFF\<close> bytes are dropped and the last remaining byte is incremented.
\<close>

definition pegasus_generate_next_blob :: "blob \<Rightarrow> blob" where
  "pegasus_generate_next_blob hash_key =
     (let p = rev (dropWhile (\<lambda>b. b = 255) (rev (pegasus_generate_key hash_key [])))
      in case rev p of [] \<Rightarrow> [] | b # bs \<Rightarrow> rev bs @ [b + 1])"

text \<open>
  Modelled from the spec: the partition hash is a 64-bit value computed from the hash-key
  segment of the encoded key only. The checksum itself (\<open>dsn_crc64_compute\<close>) belongs to
  the RPC library and is a parameter. \<open>hash_key_segment\<close> reads the length prefix and
  takes that many bytes after it.
\<close>

definition hash_key_segment :: "blob \<Rightarrow> blob" where
  "hash_key_segment key =
     (case key of
        hi # lo # rest \<Rightarrow> take (256 * unat hi + unat lo) rest
      | _ \<Rightarrow> [])"

text \<open>
  Modelled from the spec: \<open>pegasus_key_hash\<close> (from \<open>pegasus_utils.h\<close>) is the checksum of
  the hash-key segment, which the length prefix delimits.
\<close>

definition pegasus_key_hash :: "(blob \<Rightarrow> int) \<Rightarrow> blob \<Rightarrow> int" where
  "pegasus_key_hash crc key = crc (hash_key_segment key)"

section \<open>Error codes and their translation\<close>

text \<open>
  The numeric values of the transport codes (\<open>dsn::ERR_*\<close>, registered by the RPC library)
  and of the client codes (\<open>PERR_*\<close>, from \<open>pegasus/error_def.h\<close>) are not in the source
  file; they are parameters. \<open>ROCSKDB_ERROR_START\<close> is defined in the file itself.
\<close>

record error_codes =
  ERR_OK :: int
  ERR_TIMEOUT :: int
  ERR_FILE_OPERATION_FAILED :: int
  ERR_INVALID_STATE :: int
  ERR_OBJECT_NOT_FOUND :: int
  ERR_NETWORK_FAILURE :: int
  ERR_HANDLER_NOT_FOUND :: int
  ERR_APP_NOT_EXIST :: int
  ERR_APP_EXIST :: int
  PERR_OK :: int
  PERR_UNKNOWN :: int
  PERR_TIMEOUT :: int
  PERR_SERVER_INTERNAL_ERROR :: int
  PERR_SERVER_CHANGED :: int
  PERR_OBJECT_NOT_FOUND :: int
  PERR_NETWORK_FAILURE :: int
  PERR_HANDLER_NOT_FOUND :: int
  PERR_APP_NOT_EXIST :: int
  PERR_APP_EXIST :: int
  PERR_INVALID_HASH_KEY :: int
  PERR_INVALID_VALUE :: int
  PERR_INVALID_SPLIT_COUNT :: int

definition ROCSKDB_ERROR_START :: int where
  "ROCSKDB_ERROR_START = -1000"

text \<open>
  \<open>init_error\<close> clears the static table \<open>_server_error_to_client\<close> and fills it by
  assignments in this order; a later assignment to the same key replaces the earlier one.
  The table is keyed by \<open>int\<close>: transport codes and shifted storage codes share it.
\<close>

definition init_error :: "'a error_codes_scheme \<Rightarrow> (int \<rightharpoonup> int)" where
  "init_error c =
     foldl (\<lambda>m i. m(- i \<mapsto> - i))
       [ERR_OK c \<mapsto> PERR_OK c,
        ERR_TIMEOUT c \<mapsto> PERR_TIMEOUT c,
        ERR_FILE_OPERATION_FAILED c \<mapsto> PERR_SERVER_INTERNAL_ERROR c,
        ERR_INVALID_STATE c \<mapsto> PERR_SERVER_CHANGED c,
        ERR_OBJECT_NOT_FOUND c \<mapsto> PERR_OBJECT_NOT_FOUND c,
        ERR_NETWORK_FAILURE c \<mapsto> PERR_NETWORK_FAILURE c,
        ERR_HANDLER_NOT_FOUND c \<mapsto> PERR_HANDLER_NOT_FOUND c,
        ERR_APP_NOT_EXIST c \<mapsto> PERR_APP_NOT_EXIST c,
        ERR_APP_EXIST c \<mapsto> PERR_APP_EXIST c]
       [1001 .. 1012]"

text \<open>
  \<open>get_client_error\<close> looks the server error up in the table \<open>init_error\<close> built and
  falls back to \<open>PERR_UNKNOWN\<close> (after logging) when there is no entry.
\<close>

definition get_client_error :: "'a error_codes_scheme \<Rightarrow> int \<Rightarrow> int" where
  "get_client_error c server_error =
     (case init_error c server_error of
        Some client_error \<Rightarrow> client_error
      | None \<Rightarrow> PERR_UNKNOWN c)"

definition get_rocksdb_server_error :: "int \<Rightarrow> int" where
  "get_rocksdb_server_error rocskdb_error =
     (if rocskdb_error = 0 then 0 else s32 (ROCSKDB_ERROR_START - rocskdb_error))"

text \<open>
  Every completion handler ends with the same expression,
  \<open>get_client_error(err == ERR_OK ? get_rocksdb_server_error(response.error) : err.get())\<close>;
  it is named here once.
\<close>

definition translate_reply :: "'a error_codes_scheme \<Rightarrow> int \<Rightarrow> int \<Rightarrow> int" where
  "translate_reply c err storage_error =
     get_client_error c (if err = ERR_OK c then get_rocksdb_server_error storage_error else err)"

text \<open>
  What the RPC library guarantees of its registered codes and the client relies on:
  \<open>ERR_OK\<close> is zero (the storage status 0 is looked up as \<open>ERR_OK\<close>) and the other
  codes are positive.
\<close>

definition transport_codes_ok :: "'a error_codes_scheme \<Rightarrow> bool" where
  "transport_codes_ok c \<longleftrightarrow>
     ERR_OK c = 0 \<and>
     list_all (\<lambda>e. 0 < e)
       [ERR_TIMEOUT c, ERR_FILE_OPERATION_FAILED c, ERR_INVALID_STATE c,
        ERR_OBJECT_NOT_FOUND c, ERR_NETWORK_FAILURE c, ERR_HANDLER_NOT_FOUND c,
        ERR_APP_NOT_EXIST c, ERR_APP_EXIST c]"

section \<open>Requests, responses and the transport\<close>

record internal_info =
  app_id :: int
  partition_index :: int
  decree :: int
  server :: blob

text \<open>
  The response structs of the storage service (\<open>update_response\<close>, \<open>read_response\<close>,
  \<open>multi_get_response\<close>, \<open>multi_remove_response\<close>, \<open>count_response\<close>, \<open>ttl_response\<close>)
  are declared in \<open>rrdb.types.h\<close>. The client reads the fields below; the field that
  differs between them (\<open>value\<close>, \<open>kvs\<close>, \<open>count\<close>, \<open>ttl_seconds\<close>) is the payload.
\<close>

record 'p rrdb_response =
  resp_error :: int
  resp_payload :: 'p
  resp_app_id :: int
  resp_partition_index :: int
  resp_decree :: int
  resp_server :: blob

text \<open>
  The reply of the metadata service, as far as the client reads it: the error code and
  the partition count, a 32-bit \<open>int\<close>.
\<close>

record configuration_query_by_index_response =
  cfg_err :: int
  cfg_partition_count :: int

record scan_options =
  timeout_ms :: int
  batch_size :: int
  start_inclusive :: bool
  stop_inclusive :: bool
  snapshot :: bool

text \<open>
  The two constructors of \<open>pegasus_scanner_impl\<close> the client uses: with a key range
  (hash list, options, start, stop) and without one (hash list, options).
\<close>

datatype pegasus_scanner =
    Range_Scanner "int list" scan_options blob blob
  | Full_Scanner "int list" scan_options

fun scanner_hash :: "pegasus_scanner \<Rightarrow> int list" where
  "scanner_hash (Range_Scanner v _ _ _) = v"
| "scanner_hash (Full_Scanner v _) = v"

datatype rpc_request =
    RPC_RRDB_RRDB_PUT blob blob int
  | RPC_RRDB_RRDB_MULTI_PUT blob "(blob \<times> blob) list" int
  | RPC_RRDB_RRDB_GET blob
  | RPC_RRDB_RRDB_MULTI_GET blob "blob list" int int bool
  | RPC_RRDB_RRDB_REMOVE blob
  | RPC_RRDB_RRDB_MULTI_REMOVE blob "blob list"
  | RPC_RRDB_RRDB_SORTKEY_COUNT blob
  | RPC_RRDB_RRDB_TTL blob
  | RPC_CM_QUERY_PARTITION_CONFIG_BY_INDEX string

record rpc_call =
  request :: rpc_request
  timeout :: int
  partition_hash :: int

text \<open>
  The transport and the servers behind it are out of scope: for each call they complete
  it once, with a transport code and (when that is \<open>ERR_OK\<close>) a response. They are a
  parameter, one reply function per RPC.
\<close>

record transport =
  put_reply :: "rpc_call \<Rightarrow> int \<times> unit rrdb_response"
  multi_put_reply :: "rpc_call \<Rightarrow> int \<times> unit rrdb_response"
  get_reply :: "rpc_call \<Rightarrow> int \<times> blob rrdb_response"
  multi_get_reply :: "rpc_call \<Rightarrow> int \<times> (blob \<times> blob) list rrdb_response"
  remove_reply :: "rpc_call \<Rightarrow> int \<times> unit rrdb_response"
  multi_remove_reply :: "rpc_call \<Rightarrow> int \<times> int rrdb_response"
  sortkey_count_reply :: "rpc_call \<Rightarrow> int \<times> int rrdb_response"
  ttl_reply :: "rpc_call \<Rightarrow> int \<times> int rrdb_response"
  query_config_reply :: "rpc_call \<Rightarrow> int \<times> configuration_query_by_index_response"

text \<open>
  The client object and what it links against: the code values, the checksum, the clock,
  the table name, the default-constructed \<open>internal_info\<close> and \<open>scan_options\<close> (their
  constructors are in headers outside the source file) and the transport.
\<close>

record env = error_codes +
  dsn_crc64_compute :: "blob \<Rightarrow> int"
  epoch_now :: int
  app_name :: string
  new_internal_info :: internal_info
  new_scan_options :: scan_options
  rpc :: transport

text \<open>
  Effects. A call changes two things: the requests handed to the transport (\<open>sent\<close>, in
  order) and whatever the user's continuation changes (\<open>user\<close>). A continuation is a
  function on the user's state; \<open>None\<close> is the null \<open>std::function\<close>. The transport's
  completion is run at the point of the call.
\<close>

record 'u world =
  sent :: "rpc_call list"
  user :: 'u

definition invoke :: "('a \<Rightarrow> 'u \<Rightarrow> 'u) option \<Rightarrow> 'a \<Rightarrow> 'u world \<Rightarrow> 'u world" where
  "invoke callback a w =
     (case callback of None \<Rightarrow> w | Some f \<Rightarrow> w\<lparr>user := f a (user w)\<rparr>)"

definition rrdb_call ::
  "rpc_call \<Rightarrow> (rpc_call \<Rightarrow> 'r) \<Rightarrow> ('r \<Rightarrow> 'u world \<Rightarrow> 'u world) \<Rightarrow> 'u world \<Rightarrow> 'u world" where
  "rrdb_call call reply_of new_callback w =
     new_callback (reply_of call) (w\<lparr>sent := sent w @ [call]\<rparr>)"

text \<open>
  The synchronous forms: a \<open>notify_event\<close>, \<open>ret\<close> initialised to \<open>-1\<close>, and a callback
  that stores the code and the outputs and notifies. \<open>wait\<close> returns once notified; a
  wait that is never notified does not return (\<open>None\<close>).
\<close>

record 'o slot =
  slot_ret :: int
  slot_out :: 'o
  slot_info :: "internal_info option"
  notified :: bool

record 'o result =
  result_code :: int
  result_out :: 'o
  result_info :: "internal_info option"
  result_sent :: "rpc_call list"

definition new_slot :: "'o \<Rightarrow> internal_info option \<Rightarrow> 'o slot" where
  "new_slot out info = \<lparr>slot_ret = - 1, slot_out = out, slot_info = info, notified = False\<rparr>"

definition wait :: "'o slot world \<Rightarrow> 'o result option" where
  "wait w =
     (if notified (user w)
      then Some \<lparr>result_code = slot_ret (user w), result_out = slot_out (user w),
                 result_info = slot_info (user w), result_sent = sent w\<rparr>
      else None)"

text \<open>The callback of \<open>set\<close>, \<open>multi_set\<close> and \<open>del\<close>.\<close>

definition info_callback :: "int \<times> internal_info \<Rightarrow> unit slot \<Rightarrow> unit slot" where
  "info_callback = (\<lambda>(err, info') s.
     s\<lparr>slot_ret := err,
       slot_info := (if slot_info s \<noteq> None then Some info' else None),
       notified := True\<rparr>)"

text \<open>The callback of \<open>get\<close>, \<open>multi_get\<close>, \<open>multi_get_sortkeys\<close> and \<open>multi_del\<close>.\<close>

definition out_callback :: "int \<times> 'o \<times> internal_info \<Rightarrow> 'o slot \<Rightarrow> 'o slot" where
  "out_callback = (\<lambda>(err, out, info') s.
     s\<lparr>slot_ret := err,
       slot_out := out,
       slot_info := (if slot_info s \<noteq> None then Some info' else None),
       notified := True\<rparr>)"

section \<open>Point and multi-key operations\<close>

text \<open>
  The completion handler of \<open>async_set\<close>, \<open>async_multi_set\<close> and \<open>async_del\<close> (the three
  lambdas are the same text).
\<close>

definition update_new_callback ::
  "env \<Rightarrow> (int \<times> internal_info \<Rightarrow> 'u \<Rightarrow> 'u) option \<Rightarrow> int \<times> unit rrdb_response
     \<Rightarrow> 'u world \<Rightarrow> 'u world" where
  "update_new_callback env user_callback reply w =
     (case user_callback of
        None \<Rightarrow> w
      | Some f \<Rightarrow>
          (let err = fst reply; response = snd reply;
               info = (if err = ERR_OK env
                       then (new_internal_info env)
                              \<lparr>app_id := resp_app_id response,
                               partition_index := resp_partition_index response,
                               decree := resp_decree response,
                               server := resp_server response\<rparr>
                       else new_internal_info env);
               ret = translate_reply env err (resp_error response)
           in w\<lparr>user := f (ret, info) (user w)\<rparr>))"

definition async_set ::
  "env \<Rightarrow> blob \<Rightarrow> blob \<Rightarrow> blob \<Rightarrow> (int \<times> internal_info \<Rightarrow> 'u \<Rightarrow> 'u) option \<Rightarrow> int \<Rightarrow> int
     \<Rightarrow> 'u world \<Rightarrow> 'u world" where
  "async_set env hash_key sortkey val callback timeout_milliseconds ttl_seconds w =
     (if UINT16_MAX \<le> length hash_key
      then invoke callback (PERR_INVALID_HASH_KEY env, new_internal_info env) w
      else
        (let key = pegasus_generate_key hash_key sortkey;
             expire_ts_seconds =
               (if ttl_seconds = 0 then 0 else s32 (ttl_seconds + epoch_now env));
             hash = pegasus_key_hash (dsn_crc64_compute env) key
         in rrdb_call
              \<lparr>request = RPC_RRDB_RRDB_PUT key val expire_ts_seconds,
               timeout = timeout_milliseconds, partition_hash = hash\<rparr>
              (put_reply (rpc env)) (update_new_callback env callback) w))"

definition set_op ::
  "env \<Rightarrow> blob \<Rightarrow> blob \<Rightarrow> blob \<Rightarrow> int \<Rightarrow> int \<Rightarrow> internal_info option \<Rightarrow> rpc_call list
     \<Rightarrow> unit result option" where
  "set_op env hash_key sortkey val timeout_milliseconds ttl_seconds info st =
     wait (async_set env hash_key sortkey val (Some info_callback)
             timeout_milliseconds ttl_seconds \<lparr>sent = st, user = new_slot () info\<rparr>)"

definition async_multi_set ::
  "env \<Rightarrow> blob \<Rightarrow> (blob \<times> blob) list \<Rightarrow> (int \<times> internal_info \<Rightarrow> 'u \<Rightarrow> 'u) option \<Rightarrow> int \<Rightarrow> int
     \<Rightarrow> 'u world \<Rightarrow> 'u world" where
  "async_multi_set env hash_key kvs callback timeout_milliseconds ttl_seconds w =
     (if length hash_key = 0
      then invoke callback (PERR_INVALID_HASH_KEY env, new_internal_info env) w
      else if UINT16_MAX \<le> length hash_key
      then invoke callback (PERR_INVALID_HASH_KEY env, new_internal_info env) w
      else if kvs = []
      then invoke callback (PERR_INVALID_VALUE env, new_internal_info env) w
      else
        (let expire_ts_seconds =
               (if ttl_seconds = 0 then 0 else s32 (ttl_seconds + epoch_now env));
             tmp_key = pegasus_generate_key hash_key [];
             hash = pegasus_key_hash (dsn_crc64_compute env) tmp_key
         in rrdb_call
              \<lparr>request = RPC_RRDB_RRDB_MULTI_PUT hash_key kvs expire_ts_seconds,
               timeout = timeout_milliseconds, partition_hash = hash\<rparr>
              (multi_put_reply (rpc env)) (update_new_callback env callback) w))"

definition multi_set ::
  "env \<Rightarrow> blob \<Rightarrow> (blob \<times> blob) list \<Rightarrow> int \<Rightarrow> int \<Rightarrow> internal_info option \<Rightarrow> rpc_call list
     \<Rightarrow> unit result option" where
  "multi_set env hash_key kvs timeout_milliseconds ttl_seconds info st =
     wait (async_multi_set env hash_key kvs (Some info_callback)
             timeout_milliseconds ttl_seconds \<lparr>sent = st, user = new_slot () info\<rparr>)"

definition get_new_callback ::
  "env \<Rightarrow> (int \<times> blob \<times> internal_info \<Rightarrow> 'u \<Rightarrow> 'u) option \<Rightarrow> int \<times> blob rrdb_response
     \<Rightarrow> 'u world \<Rightarrow> 'u world" where
  "get_new_callback env user_callback reply w =
     (case user_callback of
        None \<Rightarrow> w
      | Some f \<Rightarrow>
          (let err = fst reply; response = snd reply;
               val = (if err = ERR_OK env \<and> resp_error response = 0
                      then resp_payload response else []);
               info = (if err = ERR_OK env
                       then (new_internal_info env)
                              \<lparr>app_id := resp_app_id response,
                               partition_index := resp_partition_index response,
                               server := resp_server response\<rparr>
                       else new_internal_info env);
               ret = translate_reply env err (resp_error response)
           in w\<lparr>user := f (ret, val, info) (user w)\<rparr>))"

definition async_get ::
  "env \<Rightarrow> blob \<Rightarrow> blob \<Rightarrow> (int \<times> blob \<times> internal_info \<Rightarrow> 'u \<Rightarrow> 'u) option \<Rightarrow> int
     \<Rightarrow> 'u world \<Rightarrow> 'u world" where
  "async_get env hash_key sortkey callback timeout_milliseconds w =
     (if UINT16_MAX \<le> length hash_key
      then invoke callback (PERR_INVALID_HASH_KEY env, [], new_internal_info env) w
      else
        (let req = pegasus_generate_key hash_key sortkey;
             hash = pegasus_key_hash (dsn_crc64_compute env) req
         in rrdb_call
              \<lparr>request = RPC_RRDB_RRDB_GET req,
               timeout = timeout_milliseconds, partition_hash = hash\<rparr>
              (get_reply (rpc env)) (get_new_callback env callback) w))"

definition get ::
  "env \<Rightarrow> blob \<Rightarrow> blob \<Rightarrow> blob \<Rightarrow> int \<Rightarrow> internal_info option \<Rightarrow> rpc_call list
     \<Rightarrow> blob result option" where
  "get env hash_key sortkey val timeout_milliseconds info st =
     wait (async_get env hash_key sortkey (Some out_callback)
             timeout_milliseconds \<lparr>sent = st, user = new_slot val info\<rparr>)"

text \<open>
  \<open>values.emplace(key, value)\<close> into a \<open>std::map\<close> keeps the first value of a key;
  \<open>sort_keys.insert(key)\<close> into a \<open>std::set\<close> collects the keys.
\<close>

definition emplace_all :: "(blob \<times> blob) list \<Rightarrow> (blob \<rightharpoonup> blob)" where
  "emplace_all kvs =
     foldl (\<lambda>m kv. if m (fst kv) = None then m(fst kv \<mapsto> snd kv) else m) Map.empty kvs"

definition multi_get_new_callback ::
  "env \<Rightarrow> (int \<times> (blob \<rightharpoonup> blob) \<times> internal_info \<Rightarrow> 'u \<Rightarrow> 'u) option
     \<Rightarrow> int \<times> (blob \<times> blob) list rrdb_response \<Rightarrow> 'u world \<Rightarrow> 'u world" where
  "multi_get_new_callback env user_callback reply w =
     (case user_callback of
        None \<Rightarrow> w
      | Some f \<Rightarrow>
          (let err = fst reply; response = snd reply;
               info = (if err = ERR_OK env
                       then (new_internal_info env)
                              \<lparr>app_id := resp_app_id response,
                               partition_index := resp_partition_index response,
                               server := resp_server response\<rparr>
                       else new_internal_info env);
               vals = (if err = ERR_OK env
                       then emplace_all (resp_payload response) else Map.empty);
               ret = translate_reply env err (resp_error response)
           in w\<lparr>user := f (ret, vals, info) (user w)\<rparr>))"

definition async_multi_get ::
  "env \<Rightarrow> blob \<Rightarrow> blob list \<Rightarrow> (int \<times> (blob \<rightharpoonup> blob) \<times> internal_info \<Rightarrow> 'u \<Rightarrow> 'u) option
     \<Rightarrow> int \<Rightarrow> int \<Rightarrow> int \<Rightarrow> 'u world \<Rightarrow> 'u world" where
  "async_multi_get env hash_key sort_keys callback max_fetch_count max_fetch_size
       timeout_milliseconds w =
     (if length hash_key = 0
      then invoke callback (PERR_INVALID_HASH_KEY env, Map.empty, new_internal_info env) w
      else if UINT16_MAX \<le> length hash_key
      then invoke callback (PERR_INVALID_HASH_KEY env, Map.empty, new_internal_info env) w
      else
        (let tmp_key = pegasus_generate_key hash_key [];
             hash = pegasus_key_hash (dsn_crc64_compute env) tmp_key
         in rrdb_call
              \<lparr>request = RPC_RRDB_RRDB_MULTI_GET hash_key sort_keys max_fetch_count
                           max_fetch_size False,
               timeout = timeout_milliseconds, partition_hash = hash\<rparr>
              (multi_get_reply (rpc env)) (multi_get_new_callback env callback) w))"

definition multi_get ::
  "env \<Rightarrow> blob \<Rightarrow> blob list \<Rightarrow> (blob \<rightharpoonup> blob) \<Rightarrow> int \<Rightarrow> int \<Rightarrow> int \<Rightarrow> internal_info option
     \<Rightarrow> rpc_call list \<Rightarrow> (blob \<rightharpoonup> blob) result option" where
  "multi_get env hash_key sort_keys vals max_fetch_count max_fetch_size
       timeout_milliseconds info st =
     wait (async_multi_get env hash_key sort_keys (Some out_callback) max_fetch_count
             max_fetch_size timeout_milliseconds \<lparr>sent = st, user = new_slot vals info\<rparr>)"

definition multi_get_sortkeys_new_callback ::
  "env \<Rightarrow> (int \<times> blob set \<times> internal_info \<Rightarrow> 'u \<Rightarrow> 'u) option
     \<Rightarrow> int \<times> (blob \<times> blob) list rrdb_response \<Rightarrow> 'u world \<Rightarrow> 'u world" where
  "multi_get_sortkeys_new_callback env user_callback reply w =
     (case user_callback of
        None \<Rightarrow> w
      | Some f \<Rightarrow>
          (let err = fst reply; response = snd reply;
               info = (if err = ERR_OK env
                       then (new_internal_info env)
                              \<lparr>app_id := resp_app_id response,
                               partition_index := resp_partition_index response,
                               server := resp_server response\<rparr>
                       else new_internal_info env);
               sort_keys = (if err = ERR_OK env
                            then set (map fst (resp_payload response)) else {});
               ret = translate_reply env err (resp_error response)
           in w\<lparr>user := f (ret, sort_keys, info) (user w)\<rparr>))"

definition async_multi_get_sortkeys ::
  "env \<Rightarrow> blob \<Rightarrow> (int \<times> blob set \<times> internal_info \<Rightarrow> 'u \<Rightarrow> 'u) option
     \<Rightarrow> int \<Rightarrow> int \<Rightarrow> int \<Rightarrow> 'u world \<Rightarrow> 'u world" where
  "async_multi_get_sortkeys env hash_key callback max_fetch_count max_fetch_size
       timeout_milliseconds w =
     (if length hash_key = 0
      then invoke callback (PERR_INVALID_HASH_KEY env, {}, new_internal_info env) w
      else if UINT16_MAX \<le> length hash_key
      then invoke callback (PERR_INVALID_HASH_KEY env, {}, new_internal_info env) w
      else
        (let tmp_key = pegasus_generate_key hash_key [];
             hash = pegasus_key_hash (dsn_crc64_compute env) tmp_key
         in rrdb_call
              \<lparr>request = RPC_RRDB_RRDB_MULTI_GET hash_key [] max_fetch_count
                           max_fetch_size True,
               timeout = timeout_milliseconds, partition_hash = hash\<rparr>
              (multi_get_reply (rpc env)) (multi_get_sortkeys_new_callback env callback) w))"

definition multi_get_sortkeys ::
  "env \<Rightarrow> blob \<Rightarrow> blob set \<Rightarrow> int \<Rightarrow> int \<Rightarrow> int \<Rightarrow> internal_info option
     \<Rightarrow> rpc_call list \<Rightarrow> blob set result option" where
  "multi_get_sortkeys env hash_key sort_keys max_fetch_count max_fetch_size
       timeout_milliseconds info st =
     wait (async_multi_get_sortkeys env hash_key (Some out_callback) max_fetch_count
             max_fetch_size timeout_milliseconds \<lparr>sent = st, user = new_slot sort_keys info\<rparr>)"

text \<open>
  \<open>sortkey_count\<close> and \<open>ttl\<close> have no asynchronous form: they validate, call the
  blocking \<open>sortkey_count_sync\<close> / \<open>ttl_sync\<close>, and return. The reference parameter
  (\<open>count\<close>, \<open>ttl_seconds\<close>) is written only on success; \<open>info\<close> is written in part
  when the transport failed.
\<close>

definition sync_info :: "env \<Rightarrow> int \<times> 'p rrdb_response \<Rightarrow> internal_info option
     \<Rightarrow> internal_info option" where
  "sync_info env pr info =
     (case info of
        None \<Rightarrow> None
      | Some i \<Rightarrow>
          Some (if fst pr = ERR_OK env
                then i\<lparr>app_id := resp_app_id (snd pr),
                       partition_index := resp_partition_index (snd pr),
                       decree := - 1,
                       server := resp_server (snd pr)\<rparr>
                else i\<lparr>app_id := - 1, partition_index := - 1, decree := - 1\<rparr>))"

definition sortkey_count ::
  "env \<Rightarrow> blob \<Rightarrow> int \<Rightarrow> int \<Rightarrow> internal_info option \<Rightarrow> rpc_call list \<Rightarrow> int result" where
  "sortkey_count env hash_key count timeout_milliseconds info st =
     (if length hash_key = 0
      then \<lparr>result_code = PERR_INVALID_HASH_KEY env, result_out = count,
            result_info = info, result_sent = st\<rparr>
      else if UINT16_MAX \<le> length hash_key
      then \<lparr>result_code = PERR_INVALID_HASH_KEY env, result_out = count,
            result_info = info, result_sent = st\<rparr>
      else
        (let tmp_key = pegasus_generate_key hash_key [];
             hash = pegasus_key_hash (dsn_crc64_compute env) tmp_key;
             call = \<lparr>request = RPC_RRDB_RRDB_SORTKEY_COUNT hash_key,
                     timeout = timeout_milliseconds, partition_hash = hash\<rparr>;
             pr = sortkey_count_reply (rpc env) call
         in \<lparr>result_code = translate_reply env (fst pr) (resp_error (snd pr)),
             result_out = (if fst pr = ERR_OK env \<and> resp_error (snd pr) = 0
                           then resp_payload (snd pr) else count),
             result_info = sync_info env pr info,
             result_sent = st @ [call]\<rparr>))"

definition async_del ::
  "env \<Rightarrow> blob \<Rightarrow> blob \<Rightarrow> (int \<times> internal_info \<Rightarrow> 'u \<Rightarrow> 'u) option \<Rightarrow> int
     \<Rightarrow> 'u world \<Rightarrow> 'u world" where
  "async_del env hash_key sortkey callback timeout_milliseconds w =
     (if UINT16_MAX \<le> length hash_key
      then invoke callback (PERR_INVALID_HASH_KEY env, new_internal_info env) w
      else
        (let req = pegasus_generate_key hash_key sortkey;
             hash = pegasus_key_hash (dsn_crc64_compute env) req
         in rrdb_call
              \<lparr>request = RPC_RRDB_RRDB_REMOVE req,
               timeout = timeout_milliseconds, partition_hash = hash\<rparr>
              (remove_reply (rpc env)) (update_new_callback env callback) w))"

definition del ::
  "env \<Rightarrow> blob \<Rightarrow> blob \<Rightarrow> int \<Rightarrow> internal_info option \<Rightarrow> rpc_call list
     \<Rightarrow> unit result option" where
  "del env hash_key sortkey timeout_milliseconds info st =
     wait (async_del env hash_key sortkey (Some info_callback)
             timeout_milliseconds \<lparr>sent = st, user = new_slot () info\<rparr>)"

definition multi_del_new_callback ::
  "env \<Rightarrow> (int \<times> int \<times> internal_info \<Rightarrow> 'u \<Rightarrow> 'u) option \<Rightarrow> int \<times> int rrdb_response
     \<Rightarrow> 'u world \<Rightarrow> 'u world" where
  "multi_del_new_callback env user_callback reply w =
     (case user_callback of
        None \<Rightarrow> w
      | Some f \<Rightarrow>
          (let err = fst reply; response = snd reply;
               info = (if err = ERR_OK env
                       then (new_internal_info env)
                              \<lparr>app_id := resp_app_id response,
                               partition_index := resp_partition_index response,
                               decree := resp_decree response,
                               server := resp_server response\<rparr>
                       else new_internal_info env);
               deleted_count = (if err = ERR_OK env then resp_payload response else 0);
               ret = translate_reply env err (resp_error response)
           in w\<lparr>user := f (ret, deleted_count, info) (user w)\<rparr>))"

definition async_multi_del ::
  "env \<Rightarrow> blob \<Rightarrow> blob list \<Rightarrow> (int \<times> int \<times> internal_info \<Rightarrow> 'u \<Rightarrow> 'u) option \<Rightarrow> int
     \<Rightarrow> 'u world \<Rightarrow> 'u world" where
  "async_multi_del env hash_key sort_keys callback timeout_milliseconds w =
     (if length hash_key = 0
      then invoke callback (PERR_INVALID_HASH_KEY env, 0, new_internal_info env) w
      else if UINT16_MAX \<le> length hash_key
      then invoke callback (PERR_INVALID_HASH_KEY env, 0, new_internal_info env) w
      else if sort_keys = []
      then invoke callback (PERR_INVALID_VALUE env, 0, new_internal_info env) w
      else
        (let tmp_key = pegasus_generate_key hash_key [];
             hash = pegasus_key_hash (dsn_crc64_compute env) tmp_key
         in rrdb_call
              \<lparr>request = RPC_RRDB_RRDB_MULTI_REMOVE hash_key sort_keys,
               timeout = timeout_milliseconds, partition_hash = hash\<rparr>
              (multi_remove_reply (rpc env)) (multi_del_new_callback env callback) w))"

definition multi_del ::
  "env \<Rightarrow> blob \<Rightarrow> blob list \<Rightarrow> int \<Rightarrow> int \<Rightarrow> internal_info option \<Rightarrow> rpc_call list
     \<Rightarrow> int result option" where
  "multi_del env hash_key sort_keys deleted_count timeout_milliseconds info st =
     wait (async_multi_del env hash_key sort_keys (Some out_callback)
             timeout_milliseconds \<lparr>sent = st, user = new_slot deleted_count info\<rparr>)"

definition ttl ::
  "env \<Rightarrow> blob \<Rightarrow> blob \<Rightarrow> int \<Rightarrow> int \<Rightarrow> internal_info option \<Rightarrow> rpc_call list \<Rightarrow> int result" where
  "ttl env hash_key sortkey ttl_seconds timeout_milliseconds info st =
     (if UINT16_MAX \<le> length hash_key
      then \<lparr>result_code = PERR_INVALID_HASH_KEY env, result_out = ttl_seconds,
            result_info = info, result_sent = st\<rparr>
      else
        (let req = pegasus_generate_key hash_key sortkey;
             hash = pegasus_key_hash (dsn_crc64_compute env) req;
             call = \<lparr>request = RPC_RRDB_RRDB_TTL req,
                     timeout = timeout_milliseconds, partition_hash = hash\<rparr>;
             pr = ttl_reply (rpc env) call
         in \<lparr>result_code = translate_reply env (fst pr) (resp_error (snd pr)),
             result_out = (if fst pr = ERR_OK env \<and> resp_error (snd pr) = 0
                           then resp_payload (snd pr) else ttl_seconds),
             result_info = sync_info env pr info,
             result_sent = st @ [call]\<rparr>))"

text \<open>
  \<open>exist\<close> declares a local \<open>int ttl_seconds\<close> without a value, passes it to \<open>ttl\<close> and
  returns what \<open>ttl\<close> returns; the local is dropped. \<open>ttl\<close> never reads it; it starts
  as 0 here.
\<close>

definition exist ::
  "env \<Rightarrow> blob \<Rightarrow> blob \<Rightarrow> int \<Rightarrow> internal_info option \<Rightarrow> rpc_call list \<Rightarrow> unit result" where
  "exist env hash_key sortkey timeout_milliseconds info st =
     (let r = ttl env hash_key sortkey 0 timeout_milliseconds info st
      in \<lparr>result_code = result_code r, result_out = (),
          result_info = result_info r, result_sent = result_sent r\<rparr>)"

section \<open>Scanners\<close>

text \<open>
  \<open>memcmp\<close> over the first \<open>n\<close> bytes, compared as unsigned bytes; the client only calls
  it with \<open>n\<close> no longer than either argument (the last equation is never reached).
\<close>

fun memcmp :: "blob \<Rightarrow> blob \<Rightarrow> nat \<Rightarrow> int" where
  "memcmp _ _ 0 = 0"
| "memcmp (a # as) (b # bs) (Suc n) =
     (if a = b then memcmp as bs n else if a < b then - 1 else 1)"
| "memcmp _ _ (Suc n) = 0"

text \<open>
  \<open>get_scanner\<close> returns the code and assigns the \<open>scanner\<close> reference only on success
  (\<open>None\<close>: not assigned). It hands nothing to the transport.
\<close>

definition get_scanner ::
  "env \<Rightarrow> blob \<Rightarrow> blob \<Rightarrow> blob \<Rightarrow> scan_options \<Rightarrow> int \<times> pegasus_scanner option" where
  "get_scanner env hash_key start_sort_key stop_sort_key options =
     (if UINT16_MAX \<le> length hash_key then (PERR_INVALID_HASH_KEY env, None)
      else if hash_key = [] then (PERR_INVALID_HASH_KEY env, None)
      else
        (let start = pegasus_generate_key hash_key start_sort_key;
             stop = (if stop_sort_key = [] then pegasus_generate_next_blob hash_key
                     else pegasus_generate_key hash_key stop_sort_key);
             opt = (if stop_sort_key = [] then options\<lparr>stop_inclusive := False\<rparr>
                    else options);
             cmp = memcmp start stop (min (length start) (length stop));
             v = (if cmp < 0 \<or> (cmp = 0 \<and> length start < length stop) \<or>
                     (cmp = 0 \<and> length start = length stop \<and> start_inclusive opt \<and>
                      stop_inclusive opt)
                  then [pegasus_key_hash (dsn_crc64_compute env) start] else [])
         in (PERR_OK env, Some (Range_Scanner v opt start stop))))"

definition async_get_scanner ::
  "env \<Rightarrow> blob \<Rightarrow> blob \<Rightarrow> blob \<Rightarrow> scan_options
     \<Rightarrow> (int \<times> pegasus_scanner option \<Rightarrow> 'u \<Rightarrow> 'u) option \<Rightarrow> 'u world \<Rightarrow> 'u world" where
  "async_get_scanner env hash_key start_sortkey stop_sortkey options callback w =
     (case callback of
        None \<Rightarrow> w
      | Some f \<Rightarrow>
          w\<lparr>user := f (get_scanner env hash_key start_sortkey stop_sortkey options) (user w)\<rparr>)"

text \<open>
  The splitting of a full-table scan, from the completion handler of
  \<open>async_get_unordered_scanners\<close>. \<open>count\<close> is \<open>unsigned int\<close>; \<open>split\<close>, \<open>size\<close>,
  \<open>more\<close>, \<open>i\<close>, \<open>s\<close> and \<open>j\<close> are \<open>int\<close>; the conversions between them are written
  out. A division by zero and a vector of negative length end the process.
\<close>

datatype fault = Division_By_Zero | Length_Error

fun fill_hash :: "nat \<Rightarrow> int \<Rightarrow> int list \<times> int" where
  "fill_hash 0 count = ([], count)"
| "fill_hash (Suc n) count =
     (let c = u32 (count - 1); r = fill_hash n c in (c # fst r, snd r))"

fun scanners_loop ::
  "int \<Rightarrow> int \<Rightarrow> scan_options \<Rightarrow> nat \<Rightarrow> int \<Rightarrow> int \<Rightarrow> fault + pegasus_scanner list" where
  "scanners_loop size' more' opt 0 i count = Inr []"
| "scanners_loop size' more' opt (Suc n) i count =
     (let s = s32 (size' + (if i < more' then 1 else 0))
      in if s < 0 then Inl Length_Error
         else
           (let r = fill_hash (nat s) count
            in case scanners_loop size' more' opt n (i + 1) (snd r) of
                 Inl e \<Rightarrow> Inl e
               | Inr rest \<Rightarrow> Inr (Full_Scanner (fst r) opt # rest)))"

definition split_scanners ::
  "env \<Rightarrow> int \<Rightarrow> int \<Rightarrow> scan_options \<Rightarrow> fault + pegasus_scanner list" where
  "split_scanners env partition_count max_split_count options =
     (let count = u32 partition_count;
          split = s32 (if count < u32 max_split_count then count else u32 max_split_count)
      in if split < 0 then Inl Length_Error
         else if split = 0 then Inl Division_By_Zero
         else
           (let size' = s32 (count div u32 split);
                more' = s32 (u32 (count - u32 (s32 (size' * split))));
                opt = (new_scan_options env)
                        \<lparr>timeout_ms := timeout_ms options,
                         batch_size := batch_size options,
                         snapshot := snapshot options\<rparr>
            in scanners_loop size' more' opt (nat split) 0 count))"

definition scanners_new_callback ::
  "env \<Rightarrow> (int \<times> pegasus_scanner list \<Rightarrow> 'u \<Rightarrow> 'u) \<Rightarrow> int \<Rightarrow> scan_options
     \<Rightarrow> int \<times> configuration_query_by_index_response \<Rightarrow> 'u world \<Rightarrow> fault + 'u world" where
  "scanners_new_callback env user_callback max_split_count options reply w =
     (let err = fst reply; response = snd reply
      in case (if err = ERR_OK env \<and> cfg_err response = ERR_OK env
               then split_scanners env (cfg_partition_count response) max_split_count options
               else Inr []) of
           Inl e \<Rightarrow> Inl e
         | Inr scanners \<Rightarrow>
             (let ret = get_client_error env (if err = ERR_OK env then cfg_err response else err)
              in Inr (w\<lparr>user := user_callback (ret, scanners) (user w)\<rparr>)))"

definition async_get_unordered_scanners ::
  "env \<Rightarrow> int \<Rightarrow> scan_options \<Rightarrow> (int \<times> pegasus_scanner list \<Rightarrow> 'u \<Rightarrow> 'u) option
     \<Rightarrow> 'u world \<Rightarrow> fault + 'u world" where
  "async_get_unordered_scanners env max_split_count options callback w =
     (case callback of
        None \<Rightarrow> Inr w
      | Some f \<Rightarrow>
          if max_split_count \<le> 0
          then Inr (w\<lparr>user := f (PERR_INVALID_SPLIT_COUNT env, []) (user w)\<rparr>)
          else
            (let call = \<lparr>request = RPC_CM_QUERY_PARTITION_CONFIG_BY_INDEX (app_name env),
                         timeout = timeout_ms options, partition_hash = 0\<rparr>
             in scanners_new_callback env f max_split_count options
                  (query_config_reply (rpc env) call) (w\<lparr>sent := sent w @ [call]\<rparr>)))"

definition scanners_callback ::
  "int \<times> pegasus_scanner list \<Rightarrow> pegasus_scanner list slot \<Rightarrow> pegasus_scanner list slot" where
  "scanners_callback = (\<lambda>(err, ss) s. s\<lparr>slot_ret := err, slot_out := ss, notified := True\<rparr>)"

definition get_unordered_scanners ::
  "env \<Rightarrow> int \<Rightarrow> scan_options \<Rightarrow> pegasus_scanner list \<Rightarrow> rpc_call list
     \<Rightarrow> fault + pegasus_scanner list result option" where
  "get_unordered_scanners env max_split_count options scanners st =
     (case async_get_unordered_scanners env max_split_count options (Some scanners_callback)
             \<lparr>sent = st, user = new_slot scanners None\<rparr> of
        Inl e \<Rightarrow> Inl e
      | Inr w \<Rightarrow> Inr (wait w))"

section \<open>Notions used to state the properties\<close>

text \<open>Byte-wise order of two keys: lexicographic on unsigned bytes, a proper prefix first.\<close>

definition bytes_less :: "blob \<Rightarrow> blob \<Rightarrow> bool" where
  "bytes_less a b \<longleftrightarrow> (a, b) \<in> lexord {(x, y). x < y}"

text \<open>A continuation that records what it is given, in order.\<close>

definition record_delivery :: "'a \<Rightarrow> 'a list \<Rightarrow> 'a list" where
  "record_delivery a log = log @ [a]"

text \<open>
  A call was rejected on the spot: nothing was handed to the transport, and the
  continuation, when there is one, has been run once, on the given arguments.
\<close>

definition rejects_with :: "('a \<Rightarrow> 'u \<Rightarrow> 'u) option \<Rightarrow> 'a \<Rightarrow> 'u world \<Rightarrow> 'u world \<Rightarrow> bool" where
  "rejects_with callback a w w' \<longleftrightarrow>
     sent w' = sent w \<and>
     user w' = (case callback of None \<Rightarrow> user w | Some f \<Rightarrow> f a (user w))"

text \<open>
  A synchronous call started with the requests \<open>st\<close> behind it, returned the code \<open>e\<close>
  and handed nothing to the transport.
\<close>

definition sync_rejects :: "'o result option \<Rightarrow> int \<Rightarrow> rpc_call list \<Rightarrow> bool" where
  "sync_rejects res e st \<longleftrightarrow>
     (case res of None \<Rightarrow> False | Some r \<Rightarrow> result_code r = e \<and> result_sent r = st)"

text \<open>
  An asynchronous form in the shape every one in the client has: it hands \<open>calls\<close> to
  the transport and runs its continuation once on the delivery \<open>d\<close>.
\<close>

definition delivers :: "'a \<Rightarrow> rpc_call list \<Rightarrow> ('a \<Rightarrow> 'u \<Rightarrow> 'u) option \<Rightarrow> 'u world \<Rightarrow> 'u world" where
  "delivers d calls callback w = invoke callback d (w\<lparr>sent := sent w @ calls\<rparr>)"

text \<open>
  The bridging pattern in the spec's words: make the notification, run the asynchronous
  form with a continuation that stores what is delivered and notifies, block until
  notified, return the stored code. \<open>bridge_info\<close> is for a delivery of code and info,
  \<open>bridge_out\<close> for one with an output as well.
\<close>

definition bridge_info ::
  "((int \<times> internal_info \<Rightarrow> unit slot \<Rightarrow> unit slot) option \<Rightarrow> unit slot world \<Rightarrow> unit slot world)
     \<Rightarrow> internal_info option \<Rightarrow> rpc_call list \<Rightarrow> unit result option" where
  "bridge_info async_form info st =
     wait (async_form (Some info_callback) \<lparr>sent = st, user = new_slot () info\<rparr>)"

definition bridge_out ::
  "((int \<times> 'o \<times> internal_info \<Rightarrow> 'o slot \<Rightarrow> 'o slot) option \<Rightarrow> 'o slot world \<Rightarrow> 'o slot world)
     \<Rightarrow> 'o \<Rightarrow> internal_info option \<Rightarrow> rpc_call list \<Rightarrow> 'o result option" where
  "bridge_out async_form out info st =
     wait (async_form (Some out_callback) \<lparr>sent = st, user = new_slot out info\<rparr>)"

text \<open>The partition-index groups of a list of scanners, one hash list per scanner.\<close>

definition groups_of :: "pegasus_scanner list \<Rightarrow> int list list" where
  "groups_of scanners = map scanner_hash scanners"

text \<open>The \<open>n\<close> integers below \<open>c\<close>, from \<open>c - 1\<close> downwards.\<close>

definition countdown :: "int \<Rightarrow> nat \<Rightarrow> int list" where
  "countdown c n = map (\<lambda>k. c - 1 - int k) [0..<n]"

section \<open>A sample environment\<close>

text \<open>
  One concrete choice of the parameters, for evaluating the operations: code values, a
  stand-in checksum, and a transport whose servers answer every call with success.
\<close>

definition sample_crc :: "blob \<Rightarrow> int" where
  "sample_crc bs = foldl (\<lambda>a b. (a * 31 + uint b) mod 2 ^ 64) 7 bs"

definition ok_response :: "'p \<Rightarrow> 'p rrdb_response" where
  "ok_response p =
     \<lparr>resp_error = 0, resp_payload = p, resp_app_id = 1, resp_partition_index = 3,
      resp_decree = 42, resp_server = []\<rparr>"

definition sample_transport :: transport where
  "sample_transport =
     \<lparr>put_reply = (\<lambda>_. (0, ok_response ())),
      multi_put_reply = (\<lambda>_. (0, ok_response ())),
      get_reply = (\<lambda>_. (0, ok_response [51, 48])),
      multi_get_reply = (\<lambda>_. (0, ok_response [([97], [49])])),
      remove_reply = (\<lambda>_. (0, ok_response ())),
      multi_remove_reply = (\<lambda>_. (0, ok_response 1)),
      sortkey_count_reply = (\<lambda>_. (0, ok_response 1)),
      ttl_reply = (\<lambda>_. (0, ok_response 60)),
      query_config_reply = (\<lambda>_. (0, \<lparr>cfg_err = 0, cfg_partition_count = 10\<rparr>))\<rparr>"

definition sample_env :: env where
  "sample_env =
     \<lparr>ERR_OK = 0, ERR_TIMEOUT = 1, ERR_FILE_OPERATION_FAILED = 2, ERR_INVALID_STATE = 3,
      ERR_OBJECT_NOT_FOUND = 4, ERR_NETWORK_FAILURE = 5, ERR_HANDLER_NOT_FOUND = 6,
      ERR_APP_NOT_EXIST = 7, ERR_APP_EXIST = 8,
      PERR_OK = 0, PERR_UNKNOWN = - 1, PERR_TIMEOUT = - 2,
      PERR_SERVER_INTERNAL_ERROR = - 101, PERR_SERVER_CHANGED = - 102,
      PERR_OBJECT_NOT_FOUND = - 3, PERR_NETWORK_FAILURE = - 4,
      PERR_HANDLER_NOT_FOUND = - 5, PERR_APP_NOT_EXIST = - 103, PERR_APP_EXIST = - 104,
      PERR_INVALID_HASH_KEY = - 201, PERR_INVALID_VALUE = - 202,
      PERR_INVALID_SPLIT_COUNT = - 203,
      dsn_crc64_compute = sample_crc, epoch_now = 1500000000, app_name = ''temp'',
      new_internal_info = \<lparr>app_id = - 1, partition_index = - 1, decree = - 1, server = []\<rparr>,
      new_scan_options = \<lparr>timeout_ms = 5000, batch_size = 1000, start_inclusive = True,
                           stop_inclusive = False, snapshot = False\<rparr>,
      rpc = sample_transport\<rparr>"

definition sample_options :: scan_options where
  "sample_options =
     \<lparr>timeout_ms = 1000, batch_size = 100, start_inclusive = False,
      stop_inclusive = False, snapshot = False\<rparr>"

section \<open>Machine integers: values in range are not changed\<close>

lemma s32_id: "- (2 ^ 31) \<le> x \<Longrightarrow> x < 2 ^ 31 \<Longrightarrow> s32 x = x"
  by (simp add: s32_def)

lemma u32_id: "0 \<le> x \<Longrightarrow> x < 2 ^ 32 \<Longrightarrow> u32 x = x"
  by (simp add: u32_def)

section \<open>The error translation\<close>

lemma rocksdb_fold:
  "foldl (\<lambda>m i. m(- i \<mapsto> - i)) m xs (j::int) = (if - j \<in> set xs then Some j else m j)"
  by (induction xs arbitrary: m) auto

lemma init_error_eq:
  "init_error c j =
     (if - 1012 \<le> j \<and> j \<le> - 1001 then Some j
      else [ERR_OK c \<mapsto> PERR_OK c,
        ERR_TIMEOUT c \<mapsto> PERR_TIMEOUT c,
        ERR_FILE_OPERATION_FAILED c \<mapsto> PERR_SERVER_INTERNAL_ERROR c,
        ERR_INVALID_STATE c \<mapsto> PERR_SERVER_CHANGED c,
        ERR_OBJECT_NOT_FOUND c \<mapsto> PERR_OBJECT_NOT_FOUND c,
        ERR_NETWORK_FAILURE c \<mapsto> PERR_NETWORK_FAILURE c,
        ERR_HANDLER_NOT_FOUND c \<mapsto> PERR_HANDLER_NOT_FOUND c,
        ERR_APP_NOT_EXIST c \<mapsto> PERR_APP_NOT_EXIST c,
        ERR_APP_EXIST c \<mapsto> PERR_APP_EXIST c] j)"
proof -
  have "- j \<in> set [1001 .. 1012] \<longleftrightarrow> - 1012 \<le> j \<and> j \<le> - 1001"
    unfolding set_upto by auto
  then show ?thesis
    unfolding init_error_def rocksdb_fold by presburger
qed

lemma init_error_rocksdb:
  "1001 \<le> i \<Longrightarrow> i \<le> 1012 \<Longrightarrow> init_error c (- i) = Some (- i)"
  by (simp add: init_error_eq)

lemma translate_storage:
  assumes "1 \<le> k" "k \<le> 12"
  shows "translate_reply c (ERR_OK c) k = ROCSKDB_ERROR_START - k"
proof -
  have "get_rocksdb_server_error k = - (1000 + k)"
    using assms by (simp add: get_rocksdb_server_error_def ROCSKDB_ERROR_START_def s32_id)
  moreover have "init_error c (- (1000 + k)) = Some (- (1000 + k))"
    using assms by (intro init_error_rocksdb) auto
  ultimately show ?thesis
    by (simp add: translate_reply_def get_client_error_def ROCSKDB_ERROR_START_def)
qed

text \<open>
  A storage status above 12 has no entry: with non-negative transport codes its shifted
  value is not a key of the table, and the translation gives \<open>PERR_UNKNOWN\<close>.
\<close>

lemma translate_unlisted_storage:
  assumes "transport_codes_ok c" "13 \<le> k" "k < 2 ^ 31 - 1000"
  shows "translate_reply c (ERR_OK c) k = PERR_UNKNOWN c"
proof -
  have "get_rocksdb_server_error k = - (1000 + k)"
    using assms by (simp add: get_rocksdb_server_error_def ROCSKDB_ERROR_START_def s32_id)
  moreover have "init_error c (- (1000 + k)) = None"
    using assms by (auto simp: init_error_eq transport_codes_ok_def)
  ultimately show ?thesis
    by (simp add: translate_reply_def get_client_error_def)
qed

text \<open>
  C2, as the code has it: a storage status from 1 to 12 (the ones \<open>init_error\<close> lists)
  is translated to \<open>ROCSKDB_ERROR_START - k\<close>, a code between -1012 and -1001, and two
  different statuses in that range get different codes.
\<close>

theorem storage_status_translation:
  assumes "1 \<le> k1" "k1 \<le> 12" "1 \<le> k2" "k2 \<le> 12"
  shows "translate_reply c (ERR_OK c) k1 = ROCSKDB_ERROR_START - k1 \<and>
         translate_reply c (ERR_OK c) k1 \<in> {- 1012 .. - 1001} \<and>
         (k1 \<noteq> k2 \<longrightarrow> translate_reply c (ERR_OK c) k1 \<noteq> translate_reply c (ERR_OK c) k2)"
  using assms by (simp add: translate_storage ROCSKDB_ERROR_START_def)

theorem storage_status_translation_witness:
  "translate_reply sample_env (ERR_OK sample_env) 1 = ROCSKDB_ERROR_START - 1 \<and>
   translate_reply sample_env (ERR_OK sample_env) 1 \<in> {- 1012 .. - 1001} \<and>
   translate_reply sample_env (ERR_OK sample_env) 1 \<noteq>
     translate_reply sample_env (ERR_OK sample_env) 12"
  using storage_status_translation [of 1 12 sample_env] by simp

lemma sample_codes_ok: "transport_codes_ok sample_env"
  by (simp add: transport_codes_ok_def sample_env_def)

text \<open>
  C2 as stated fails: the storage statuses 13 and 14 are not zero, yet both are
  translated to \<open>PERR_UNKNOWN\<close>, which is not \<open>-1000 - 13\<close>.
\<close>

theorem storage_status_collision:
  "translate_reply sample_env (ERR_OK sample_env) 13 =
     translate_reply sample_env (ERR_OK sample_env) 14 \<and>
   translate_reply sample_env (ERR_OK sample_env) 13 \<noteq> ROCSKDB_ERROR_START - 13"
  by (simp add: translate_unlisted_storage [OF sample_codes_ok] ROCSKDB_ERROR_START_def)
     (simp add: sample_env_def)

lemma translate_ok: "transport_codes_ok c \<Longrightarrow> translate_reply c (ERR_OK c) 0 = PERR_OK c"
  by (simp add: translate_reply_def get_client_error_def get_rocksdb_server_error_def
        init_error_eq transport_codes_ok_def)

lemma translate_transport_failure:
  "t \<noteq> ERR_OK c \<Longrightarrow>
   translate_reply c t s = (case init_error c t of Some e \<Rightarrow> e | None \<Rightarrow> PERR_UNKNOWN c)"
  by (simp add: translate_reply_def get_client_error_def)

lemma translate_storage_failure:
  "s \<noteq> 0 \<Longrightarrow>
   translate_reply c (ERR_OK c) s =
     (case init_error c (s32 (ROCSKDB_ERROR_START - s)) of
        Some e \<Rightarrow> e | None \<Rightarrow> PERR_UNKNOWN c)"
  by (simp add: translate_reply_def get_client_error_def get_rocksdb_server_error_def)

lemma init_error_None_iff:
  "init_error c t = None \<longleftrightarrow>
     t \<notin> {ERR_OK c, ERR_TIMEOUT c, ERR_FILE_OPERATION_FAILED c, ERR_INVALID_STATE c,
           ERR_OBJECT_NOT_FOUND c, ERR_NETWORK_FAILURE c, ERR_HANDLER_NOT_FOUND c,
           ERR_APP_NOT_EXIST c, ERR_APP_EXIST c} \<and>
     \<not> (- 1012 \<le> t \<and> t \<le> - 1001)"
  by (simp add: init_error_eq)

lemma translate_unregistered_transport:
  assumes "t \<notin> {ERR_OK c, ERR_TIMEOUT c, ERR_FILE_OPERATION_FAILED c, ERR_INVALID_STATE c,
           ERR_OBJECT_NOT_FOUND c, ERR_NETWORK_FAILURE c, ERR_HANDLER_NOT_FOUND c,
           ERR_APP_NOT_EXIST c, ERR_APP_EXIST c}"
    and "\<not> (- 1012 \<le> t \<and> t \<le> - 1001)"
  shows "translate_reply c t s = PERR_UNKNOWN c"
proof -
  have "init_error c t = None"
    using assms by (simp only: init_error_None_iff simp_thms)
  moreover have "t \<noteq> ERR_OK c" using assms(1) by simp
  ultimately show ?thesis by (simp add: translate_transport_failure)
qed

lemma translate_registered_transport:
  assumes "transport_codes_ok c"
    and "distinct [ERR_OK c, ERR_TIMEOUT c, ERR_FILE_OPERATION_FAILED c, ERR_INVALID_STATE c,
           ERR_OBJECT_NOT_FOUND c, ERR_NETWORK_FAILURE c, ERR_HANDLER_NOT_FOUND c,
           ERR_APP_NOT_EXIST c, ERR_APP_EXIST c]"
  shows "translate_reply c (ERR_TIMEOUT c) s = PERR_TIMEOUT c"
    and "translate_reply c (ERR_FILE_OPERATION_FAILED c) s = PERR_SERVER_INTERNAL_ERROR c"
    and "translate_reply c (ERR_INVALID_STATE c) s = PERR_SERVER_CHANGED c"
    and "translate_reply c (ERR_OBJECT_NOT_FOUND c) s = PERR_OBJECT_NOT_FOUND c"
    and "translate_reply c (ERR_NETWORK_FAILURE c) s = PERR_NETWORK_FAILURE c"
    and "translate_reply c (ERR_HANDLER_NOT_FOUND c) s = PERR_HANDLER_NOT_FOUND c"
    and "translate_reply c (ERR_APP_NOT_EXIST c) s = PERR_APP_NOT_EXIST c"
    and "translate_reply c (ERR_APP_EXIST c) s = PERR_APP_EXIST c"
  using assms
  by (simp_all add: translate_reply_def get_client_error_def init_error_eq
        transport_codes_ok_def)

text \<open>
  C6: the translation has no failing branch: \<open>get_client_error\<close> is a lookup with a
  default (its logging call is left out). With the transport's codes as registered:
  a successful transport status with storage status 0 gives \<open>PERR_OK\<close>; every pair
  gives exactly one code, an entry of the table or \<open>PERR_UNKNOWN\<close>; a failed transport
  status is looked up as it is, whatever the storage status, and a storage status other
  than 0 is looked up shifted; a transport code or a storage status with no entry gives
  \<open>PERR_UNKNOWN\<close>, where no entry means: not one of the nine transport codes and not
  between -1012 and -1001; the storage statuses 1 to 12 give \<open>-1000 - s\<close> and those
  from 13 up \<open>PERR_UNKNOWN\<close>; and, the transport codes being distinct, each of them
  gives the client code \<open>init_error\<close> assigns to it.
\<close>

theorem error_translation_total:
  assumes "transport_codes_ok c"
  shows "translate_reply c (ERR_OK c) 0 = PERR_OK c \<and>
         (\<forall>t s. \<exists>!e. translate_reply c t s = e) \<and>
         (\<forall>e. init_error c e = None \<longrightarrow> get_client_error c e = PERR_UNKNOWN c) \<and>
         (\<forall>t s. translate_reply c t s \<in> ran (init_error c) \<union> {PERR_UNKNOWN c}) \<and>
         (\<forall>t s. t \<noteq> ERR_OK c \<longrightarrow>
            translate_reply c t s =
              (case init_error c t of Some e \<Rightarrow> e | None \<Rightarrow> PERR_UNKNOWN c)) \<and>
         (\<forall>s. s \<noteq> 0 \<longrightarrow>
            translate_reply c (ERR_OK c) s =
              (case init_error c (s32 (ROCSKDB_ERROR_START - s)) of
                 Some e \<Rightarrow> e | None \<Rightarrow> PERR_UNKNOWN c)) \<and>
         (\<forall>t. init_error c t = None \<longleftrightarrow>
            t \<notin> {ERR_OK c, ERR_TIMEOUT c, ERR_FILE_OPERATION_FAILED c, ERR_INVALID_STATE c,
                  ERR_OBJECT_NOT_FOUND c, ERR_NETWORK_FAILURE c, ERR_HANDLER_NOT_FOUND c,
                  ERR_APP_NOT_EXIST c, ERR_APP_EXIST c} \<and>
            \<not> (- 1012 \<le> t \<and> t \<le> - 1001)) \<and>
         (\<forall>t s. t \<notin> {ERR_OK c, ERR_TIMEOUT c, ERR_FILE_OPERATION_FAILED c,
                       ERR_INVALID_STATE c, ERR_OBJECT_NOT_FOUND c, ERR_NETWORK_FAILURE c,
                       ERR_HANDLER_NOT_FOUND c, ERR_APP_NOT_EXIST c, ERR_APP_EXIST c} \<and>
                 \<not> (- 1012 \<le> t \<and> t \<le> - 1001) \<longrightarrow>
            translate_reply c t s = PERR_UNKNOWN c) \<and>
         (\<forall>s. 1 \<le> s \<and> s \<le> 12 \<longrightarrow>
            translate_reply c (ERR_OK c) s = ROCSKDB_ERROR_START - s) \<and>
         (\<forall>s. 13 \<le> s \<and> s < 2 ^ 31 - 1000 \<longrightarrow>
            translate_reply c (ERR_OK c) s = PERR_UNKNOWN c) \<and>
         (distinct [ERR_OK c, ERR_TIMEOUT c, ERR_FILE_OPERATION_FAILED c, ERR_INVALID_STATE c,
                    ERR_OBJECT_NOT_FOUND c, ERR_NETWORK_FAILURE c, ERR_HANDLER_NOT_FOUND c,
                    ERR_APP_NOT_EXIST c, ERR_APP_EXIST c] \<longrightarrow>
            (\<forall>s. translate_reply c (ERR_TIMEOUT c) s = PERR_TIMEOUT c \<and>
                 translate_reply c (ERR_FILE_OPERATION_FAILED c) s =
                   PERR_SERVER_INTERNAL_ERROR c \<and>
                 translate_reply c (ERR_INVALID_STATE c) s = PERR_SERVER_CHANGED c \<and>
                 translate_reply c (ERR_OBJECT_NOT_FOUND c) s = PERR_OBJECT_NOT_FOUND c \<and>
                 translate_reply c (ERR_NETWORK_FAILURE c) s = PERR_NETWORK_FAILURE c \<and>
                 translate_reply c (ERR_HANDLER_NOT_FOUND c) s = PERR_HANDLER_NOT_FOUND c \<and>
                 translate_reply c (ERR_APP_NOT_EXIST c) s = PERR_APP_NOT_EXIST c \<and>
                 translate_reply c (ERR_APP_EXIST c) s = PERR_APP_EXIST c))"
proof -
  have c1: "translate_reply c (ERR_OK c) 0 = PERR_OK c"
    by (rule translate_ok [OF assms])
  have c2: "\<forall>t s. \<exists>!e. translate_reply c t s = e"
    by simp
  have c3: "\<forall>e. init_error c e = None \<longrightarrow> get_client_error c e = PERR_UNKNOWN c"
    by (simp add: get_client_error_def)
  have "\<And>e. get_client_error c e \<in> ran (init_error c) \<union> {PERR_UNKNOWN c}"
    by (auto simp: get_client_error_def ran_def split: option.splits)
  then have c4: "\<forall>t s. translate_reply c t s \<in> ran (init_error c) \<union> {PERR_UNKNOWN c}"
    by (simp add: translate_reply_def)
  have c5: "\<forall>t s. t \<noteq> ERR_OK c \<longrightarrow>
            translate_reply c t s =
              (case init_error c t of Some e \<Rightarrow> e | None \<Rightarrow> PERR_UNKNOWN c)"
    by (simp add: translate_transport_failure)
  have c6: "\<forall>s. s \<noteq> 0 \<longrightarrow>
            translate_reply c (ERR_OK c) s =
              (case init_error c (s32 (ROCSKDB_ERROR_START - s)) of
                 Some e \<Rightarrow> e | None \<Rightarrow> PERR_UNKNOWN c)"
    by (simp add: translate_storage_failure)
  have c7: "\<forall>t. init_error c t = None \<longleftrightarrow>
            t \<notin> {ERR_OK c, ERR_TIMEOUT c, ERR_FILE_OPERATION_FAILED c, ERR_INVALID_STATE c,
                  ERR_OBJECT_NOT_FOUND c, ERR_NETWORK_FAILURE c, ERR_HANDLER_NOT_FOUND c,
                  ERR_APP_NOT_EXIST c, ERR_APP_EXIST c} \<and>
            \<not> (- 1012 \<le> t \<and> t \<le> - 1001)"
    by (intro allI init_error_None_iff)
  have c8: "\<forall>t s. t \<notin> {ERR_OK c, ERR_TIMEOUT c, ERR_FILE_OPERATION_FAILED c,
                       ERR_INVALID_STATE c, ERR_OBJECT_NOT_FOUND c, ERR_NETWORK_FAILURE c,
                       ERR_HANDLER_NOT_FOUND c, ERR_APP_NOT_EXIST c, ERR_APP_EXIST c} \<and>
                 \<not> (- 1012 \<le> t \<and> t \<le> - 1001) \<longrightarrow>
            translate_reply c t s = PERR_UNKNOWN c"
    using translate_unregistered_transport [of _ c] by blast
  have c9: "\<forall>s. 1 \<le> s \<and> s \<le> 12 \<longrightarrow>
            translate_reply c (ERR_OK c) s = ROCSKDB_ERROR_START - s"
    by (simp add: translate_storage)
  have c10: "\<forall>s. 13 \<le> s \<and> s < 2 ^ 31 - 1000 \<longrightarrow>
            translate_reply c (ERR_OK c) s = PERR_UNKNOWN c"
    using translate_unlisted_storage [OF assms] by blast
  have c11: "distinct [ERR_OK c, ERR_TIMEOUT c, ERR_FILE_OPERATION_FAILED c, ERR_INVALID_STATE c,
                    ERR_OBJECT_NOT_FOUND c, ERR_NETWORK_FAILURE c, ERR_HANDLER_NOT_FOUND c,
                    ERR_APP_NOT_EXIST c, ERR_APP_EXIST c] \<longrightarrow>
            (\<forall>s. translate_reply c (ERR_TIMEOUT c) s = PERR_TIMEOUT c \<and>
                 translate_reply c (ERR_FILE_OPERATION_FAILED c) s =
                   PERR_SERVER_INTERNAL_ERROR c \<and>
                 translate_reply c (ERR_INVALID_STATE c) s = PERR_SERVER_CHANGED c \<and>
                 translate_reply c (ERR_OBJECT_NOT_FOUND c) s = PERR_OBJECT_NOT_FOUND c \<and>
                 translate_reply c (ERR_NETWORK_FAILURE c) s = PERR_NETWORK_FAILURE c \<and>
                 translate_reply c (ERR_HANDLER_NOT_FOUND c) s = PERR_HANDLER_NOT_FOUND c \<and>
                 translate_reply c (ERR_APP_NOT_EXIST c) s = PERR_APP_NOT_EXIST c \<and>
                 translate_reply c (ERR_APP_EXIST c) s = PERR_APP_EXIST c)"
    using translate_registered_transport [OF assms] by blast
  from c1 c2 c3 c4 c5 c6 c7 c8 c9 c10 c11 show ?thesis
    by (intro conjI)
qed

theorem error_translation_total_witness:
  "transport_codes_ok sample_env \<and>
   translate_reply sample_env (ERR_OK sample_env) 0 = PERR_OK sample_env \<and>
   translate_reply sample_env 99 5 = PERR_UNKNOWN sample_env \<and>
   translate_reply sample_env (ERR_OK sample_env) 13 = PERR_UNKNOWN sample_env \<and>
   translate_reply sample_env (ERR_OK sample_env) 5 = - 1005 \<and>
   translate_reply sample_env (ERR_TIMEOUT sample_env) 5 = PERR_TIMEOUT sample_env \<and>
   PERR_OK sample_env = 0 \<and> PERR_UNKNOWN sample_env = - 1 \<and> PERR_TIMEOUT sample_env = - 2"
proof -
  note r = error_translation_total [OF sample_codes_ok]
  have d: "distinct [ERR_OK sample_env, ERR_TIMEOUT sample_env,
             ERR_FILE_OPERATION_FAILED sample_env, ERR_INVALID_STATE sample_env,
             ERR_OBJECT_NOT_FOUND sample_env, ERR_NETWORK_FAILURE sample_env,
             ERR_HANDLER_NOT_FOUND sample_env, ERR_APP_NOT_EXIST sample_env,
             ERR_APP_EXIST sample_env]"
    by (simp add: sample_env_def)
  have u: "99 \<notin> {ERR_OK sample_env, ERR_TIMEOUT sample_env,
             ERR_FILE_OPERATION_FAILED sample_env, ERR_INVALID_STATE sample_env,
             ERR_OBJECT_NOT_FOUND sample_env, ERR_NETWORK_FAILURE sample_env,
             ERR_HANDLER_NOT_FOUND sample_env, ERR_APP_NOT_EXIST sample_env,
             ERR_APP_EXIST sample_env} \<and> \<not> (- 1012 \<le> (99::int) \<and> (99::int) \<le> - 1001)"
    by (simp add: sample_env_def)
  note r8 = r [THEN conjunct2, THEN conjunct2, THEN conjunct2, THEN conjunct2,
    THEN conjunct2, THEN conjunct2, THEN conjunct2]
  note r9 = r8 [THEN conjunct2]
  note r10 = r9 [THEN conjunct2]
  note r11 = r10 [THEN conjunct2]
  have "translate_reply sample_env (ERR_OK sample_env) 0 = PERR_OK sample_env"
    by (rule r [THEN conjunct1])
  moreover have "translate_reply sample_env 99 5 = PERR_UNKNOWN sample_env"
    by (rule r8 [THEN conjunct1, rule_format, OF u])
  moreover have "translate_reply sample_env (ERR_OK sample_env) 13 = PERR_UNKNOWN sample_env"
    by (rule r10 [THEN conjunct1, rule_format]) simp
  moreover have "translate_reply sample_env (ERR_OK sample_env) 5 = ROCSKDB_ERROR_START - 5"
    by (rule r9 [THEN conjunct1, rule_format]) simp
  moreover have "translate_reply sample_env (ERR_TIMEOUT sample_env) 5 = PERR_TIMEOUT sample_env"
    by (rule r11 [rule_format, OF d, THEN conjunct1])
  ultimately show ?thesis
    using sample_codes_ok by (simp add: sample_env_def ROCSKDB_ERROR_START_def)
qed

section \<open>Splitting a full-table scan\<close>

lemma countdown_Suc: "countdown c (Suc n) = (c - 1) # countdown (c - 1) n"
  by (simp add: countdown_def map_upt_Suc del: upt_Suc)

lemma countdown_add: "countdown c (a + b) = countdown c a @ countdown (c - int a) b"
proof (induction a arbitrary: c)
  case 0
  show ?case by (simp add: countdown_def)
next
  case (Suc a)
  have "countdown c (Suc a + b) = (c - 1) # countdown (c - 1) (a + b)"
    by (simp add: countdown_Suc)
  also have "\<dots> = (c - 1) # countdown (c - 1) a @ countdown (c - 1 - int a) b"
    by (simp add: Suc.IH)
  finally have "countdown c (Suc a + b) = (c - 1) # countdown (c - 1) a @ countdown (c - 1 - int a) b" .
  moreover have "c - 1 - int a = c - int (Suc a)" by simp
  ultimately show ?case by (simp only: countdown_Suc append_Cons)
qed

lemma fill_hash_eq:
  "int n \<le> count \<Longrightarrow> count < 2 ^ 32 \<Longrightarrow> fill_hash n count = (countdown count n, count - int n)"
proof (induction n arbitrary: count)
  case 0
  show ?case by (simp add: countdown_def)
next
  case (Suc n)
  have c: "u32 (count - 1) = count - 1"
    using Suc.prems by (intro u32_id) auto
  have "fill_hash n (count - 1) = (countdown (count - 1) n, count - 1 - int n)"
    using Suc.prems by (intro Suc.IH) auto
  then show ?case
    by (simp add: c Let_def countdown_Suc)
qed

lemma scanners_loop_groups:
  assumes "1 \<le> sz" "sz + (if 0 < mo then 1 else 0) < 2 ^ 31" "0 \<le> i" "mo \<le> i + int n"
    and "count = int n * sz + max 0 (mo - i)" "count < 2 ^ 32"
  shows "\<exists>scs. scanners_loop sz mo opt n i count = Inr scs \<and>
           length scs = n \<and>
           concat (map scanner_hash scs) = countdown count (nat count) \<and>
           (\<forall>k<n. int (length (scanner_hash (scs ! k))) =
                     sz + (if i + int k < mo then 1 else 0))"
  using assms
proof (induction n arbitrary: i count)
  case 0
  then show ?case by (simp add: countdown_def)
next
  case (Suc n)
  define s where "s = sz + (if i < mo then 1 else 0)"
  have s_pos: "1 \<le> s" and s_lt: "s < 2 ^ 31"
    using Suc.prems(1,2,3) by (auto simp: s_def split: if_splits)
  have s32s: "s32 (sz + (if i < mo then 1 else 0)) = s"
    unfolding s_def [symmetric] using s_pos s_lt by (intro s32_id) auto
  have nsz: "0 \<le> int n * sz"
    using Suc.prems(1) by simp
  have cnt: "count = s + (int n * sz + max 0 (mo - (i + 1)))"
    using Suc.prems(5) by (auto simp: s_def algebra_simps max_def)
  have s_le: "int (nat s) \<le> count"
    using cnt nsz s_pos by (simp add: max_def split: if_splits)
  have fh: "fill_hash (nat s) count = (countdown count (nat s), count - s)"
    using fill_hash_eq [OF s_le Suc.prems(6)] s_pos by simp
  have "\<exists>scs. scanners_loop sz mo opt n (i + 1) (count - s) = Inr scs \<and>
           length scs = n \<and>
           concat (map scanner_hash scs) = countdown (count - s) (nat (count - s)) \<and>
           (\<forall>k<n. int (length (scanner_hash (scs ! k))) =
                     sz + (if (i + 1) + int k < mo then 1 else 0))"
  proof (rule Suc.IH)
    show "1 \<le> sz" "sz + (if 0 < mo then 1 else 0) < 2 ^ 31" by (rule Suc.prems)+
    show "0 \<le> i + 1" using Suc.prems(3) by simp
    show "mo \<le> i + 1 + int n" using Suc.prems(4) by simp
    show "count - s = int n * sz + max 0 (mo - (i + 1))" using cnt by simp
    show "count - s < 2 ^ 32" using Suc.prems(6) s_pos by simp
  qed
  then obtain rest where rest: "scanners_loop sz mo opt n (i + 1) (count - s) = Inr rest"
    "length rest = n"
    "concat (map scanner_hash rest) = countdown (count - s) (nat (count - s))"
    "\<forall>k<n. int (length (scanner_hash (rest ! k))) = sz + (if (i + 1) + int k < mo then 1 else 0)"
    by blast
  let ?scs = "Full_Scanner (countdown count (nat s)) opt # rest"
  have run: "scanners_loop sz mo opt (Suc n) i count = Inr ?scs"
    using s_pos by (simp add: s32s fh rest(1) Let_def)
  have "nat count = nat s + nat (count - s)"
    using s_le s_pos by simp
  then have cat: "concat (map scanner_hash ?scs) = countdown count (nat count)"
    using s_pos by (simp add: rest(3) countdown_add)
  have len: "\<forall>k<Suc n. int (length (scanner_hash (?scs ! k))) =
                     sz + (if i + int k < mo then 1 else 0)"
  proof (intro allI impI)
    fix k assume k: "k < Suc n"
    show "int (length (scanner_hash (?scs ! k))) = sz + (if i + int k < mo then 1 else 0)"
    proof (cases k)
      case 0
      then show ?thesis using s_pos by (simp add: countdown_def s_def)
    next
      case (Suc k')
      then have "k' < n" using k by simp
      with rest(4) have "int (length (scanner_hash (rest ! k'))) =
          sz + (if (i + 1) + int k' < mo then 1 else 0)" by blast
      then show ?thesis using Suc by (simp add: add.commute add.left_commute)
    qed
  qed
  show ?case
    using run cat len rest(2) by simp
qed

lemma nth_subset_concat:
  assumes "j < length xss"
  shows "set (xss ! j) \<subseteq> set (concat xss)"
proof
  fix x assume "x \<in> set (xss ! j)"
  with assms show "x \<in> set (concat xss)"
    using nth_mem [of j xss] by (auto intro!: bexI [where x = "xss ! j"])
qed

lemma distinct_concat_disjoint_less:
  "distinct (concat xss) \<Longrightarrow> i < j \<Longrightarrow> j < length xss \<Longrightarrow>
   set (xss ! i) \<inter> set (xss ! j) = {}"
proof (induction xss arbitrary: i j)
  case Nil
  then show ?case by simp
next
  case (Cons xs xss)
  from Cons.prems obtain j' where j': "j = Suc j'" "j' < length xss"
    by (cases j) auto
  have d: "distinct (concat xss)" "set xs \<inter> set (concat xss) = {}"
    using Cons.prems(1) by auto
  show ?case
  proof (cases i)
    case 0
    have "set (xss ! j') \<subseteq> set (concat xss)"
      using j'(2) by (rule nth_subset_concat)
    then show ?thesis using d(2) 0 j'(1) by auto
  next
    case (Suc i')
    then have "i' < j'" using Cons.prems(2) j'(1) by simp
    then have "set (xss ! i') \<inter> set (xss ! j') = {}"
      using Cons.IH d(1) j'(2) by blast
    then show ?thesis using Suc j'(1) by simp
  qed
qed

lemma distinct_concat_disjoint:
  assumes "distinct (concat xss)" "i < length xss" "j < length xss" "i \<noteq> j"
  shows "set (xss ! i) \<inter> set (xss ! j) = {}"
proof (cases "i < j")
  case True
  then show ?thesis using assms distinct_concat_disjoint_less by blast
next
  case False
  then have "j < i" using assms(4) by simp
  then have "set (xss ! j) \<inter> set (xss ! i) = {}"
    using assms distinct_concat_disjoint_less by blast
  then show ?thesis by blast
qed

lemma distinct_countdown: "distinct (countdown c n)"
  by (simp add: countdown_def distinct_map inj_on_def)

lemma set_countdown:
  assumes c: "0 \<le> c"
  shows "set (countdown c (nat c)) = {0..<c}"
proof (rule set_eqI)
  fix x
  show "x \<in> set (countdown c (nat c)) \<longleftrightarrow> x \<in> {0..<c}"
  proof
    assume "x \<in> set (countdown c (nat c))"
    then show "x \<in> {0..<c}" by (auto simp: countdown_def)
  next
    assume x: "x \<in> {0..<c}"
    then have a: "nat (c - 1 - x) \<in> {0..<nat c}" by auto
    have b: "x = c - 1 - int (nat (c - 1 - x))" using x by auto
    show "x \<in> set (countdown c (nat c))"
      unfolding countdown_def set_map set_upt
      by (rule image_eqI [where x = "nat (c - 1 - x)" and f = "\<lambda>k. c - 1 - int k"]) (rule b, rule a)
  qed
qed


lemma split_scanners_run:
  assumes "1 \<le> P" "P < 2 ^ 31" "1 \<le> S" "S < 2 ^ 31"
  shows "\<exists>scs. split_scanners env P S options = Inr scs \<and>
           length scs = nat (min S P) \<and>
           concat (map scanner_hash scs) = countdown P (nat P) \<and>
           (\<forall>k<nat (min S P). int (length (scanner_hash (scs ! k))) =
                     P div min S P + (if int k < P mod min S P then 1 else 0))"
proof -
  define m where "m = min S P"
  have m: "1 \<le> m" "m \<le> P" "m < 2 ^ 31" using assms by (auto simp: m_def)
  have uP: "u32 P = P" and uS: "u32 S = S" and um: "u32 m = m"
    using assms m by (auto intro!: u32_id)
  have split: "s32 (if u32 P < u32 S then u32 P else u32 S) = m"
    using assms m by (auto simp: uP uS m_def intro!: s32_id)
  have d0: "0 \<le> P mod m" "P mod m < m"
    using m by auto
  have pm: "P div m * m = P - P mod m"
    by (simp add: minus_mod_eq_div_mult)
  have d1: "1 \<le> P div m"
    using m by (simp add: pos_imp_zdiv_pos_iff int_one_le_iff_zero_less)
  have prod1: "0 \<le> P div m * m"
    using d1 m(1) by simp
  have prod2: "P div m * m \<le> P"
    using pm d0(1) by linarith
  note prod = prod1 prod2
  have "P div m * 1 \<le> P div m * m"
    using d1 m(1) by (intro mult_left_mono) auto
  then have d2: "P div m \<le> P"
    using prod(2) by simp
  have sz: "s32 (P div m) = P div m"
    using d1 d2 assms by (intro s32_id) auto
  have sprod: "s32 (P div m * m) = P div m * m"
    using prod assms by (intro s32_id) auto
  have uprod: "u32 (P div m * m) = P div m * m"
    using prod assms by (intro u32_id) auto
  have diff: "P - P div m * m = P mod m"
    using pm by linarith
  have modb: "P mod m < 2 ^ 31"
    using d0(2) m(3) by linarith
  have umod: "u32 (P mod m) = P mod m"
    using d0(1) modb by (simp add: u32_def)
  have smod: "s32 (P mod m) = P mod m"
    using d0(1) modb by (simp add: s32_def)
  have mo: "s32 (u32 (P - u32 (s32 (P div m * m)))) = P mod m"
    by (simp only: sprod uprod diff umod smod)
  have two: "0 < P mod m \<Longrightarrow> P div m + 1 < 2 ^ 31"
  proof -
    assume "0 < P mod m"
    then have "2 \<le> m" using d0 by auto
    then have "2 * (P div m) \<le> P div m * m"
      using d1 by (simp add: mult.commute mult_right_mono)
    then show ?thesis using prod assms by auto
  qed
  have run: "split_scanners env P S options =
      scanners_loop (P div m) (P mod m)
        ((new_scan_options env)\<lparr>timeout_ms := timeout_ms options,
            batch_size := batch_size options, snapshot := snapshot options\<rparr>)
        (nat m) 0 P"
    using m unfolding split_scanners_def Let_def split
    by (simp add: uP um sz mo)
  have "\<exists>scs. scanners_loop (P div m) (P mod m)
        ((new_scan_options env)\<lparr>timeout_ms := timeout_ms options,
            batch_size := batch_size options, snapshot := snapshot options\<rparr>)
        (nat m) 0 P = Inr scs \<and>
           length scs = nat m \<and>
           concat (map scanner_hash scs) = countdown P (nat P) \<and>
           (\<forall>k<nat m. int (length (scanner_hash (scs ! k))) =
                     P div m + (if 0 + int k < P mod m then 1 else 0))"
  proof (rule scanners_loop_groups)
    show "1 \<le> P div m" by (rule d1)
    show "P div m + (if 0 < P mod m then 1 else 0) < 2 ^ 31"
      using two d2 assms by auto
    show "(0::int) \<le> 0" by simp
    show "P mod m \<le> 0 + int (nat m)" using d0(2) m(1) by linarith
    have "int (nat m) = m" "max 0 (P mod m - 0) = P mod m"
      using m(1) d0(1) by auto
    then show "P = int (nat m) * (P div m) + max 0 (P mod m - 0)"
      using pm by (simp add: mult.commute)
    show "P < 2 ^ 32" using assms by simp
  qed
  then show ?thesis
    unfolding run m_def [symmetric] by simp
qed

text \<open>
  The fault branch is taken: a reply with a partition count of 0 makes \<open>split\<close> zero,
  and the handler divides by it.
\<close>

lemma split_scanners_zero_partitions:
  "1 \<le> S \<Longrightarrow> S < 2 ^ 31 \<Longrightarrow> split_scanners env 0 S options = Inl Division_By_Zero"
  by (simp add: split_scanners_def u32_def s32_def Let_def)

text \<open>
  The groups \<open>split_scanners\<close> builds: \<open>min S P\<close> of them, pairwise disjoint, none
  empty, together the indices from 0 up to \<open>P - 1\<close>, sizes as even as possible.
\<close>

lemma split_scanners_partition:
  assumes "1 \<le> P" "P < 2 ^ 31" "1 \<le> S" "S < 2 ^ 31"
  shows "\<exists>scanners. split_scanners env P S options = Inr scanners \<and>
           int (length scanners) = min S P \<and>
           (\<forall>i<length scanners. \<forall>j<length scanners. i \<noteq> j \<longrightarrow>
              set (groups_of scanners ! i) \<inter> set (groups_of scanners ! j) = {}) \<and>
           (\<forall>g\<in>set (groups_of scanners). g \<noteq> []) \<and>
           \<Union> (set ` set (groups_of scanners)) = {0..<P} \<and>
           (\<forall>i<length scanners. int (length (groups_of scanners ! i)) =
              P div min S P + (if int i < P mod min S P then 1 else 0)) \<and>
           (\<forall>i<length scanners. \<forall>j<length scanners.
              \<bar>int (length (groups_of scanners ! i)) - int (length (groups_of scanners ! j))\<bar> \<le> 1)"
proof -
  from split_scanners_run [OF assms, of env options]
  obtain scs where scs: "split_scanners env P S options = Inr scs"
    "length scs = nat (min S P)"
    "concat (map scanner_hash scs) = countdown P (nat P)"
    "\<forall>k<nat (min S P). int (length (scanner_hash (scs ! k))) =
                     P div min S P + (if int k < P mod min S P then 1 else 0)"
    by blast
  have m: "1 \<le> min S P" using assms by simp
  have len: "int (length scs) = min S P" using scs(2) m by simp
  have dist: "distinct (concat (groups_of scs))"
    by (simp add: groups_of_def scs(3) distinct_countdown)
  have disj: "\<forall>i<length scs. \<forall>j<length scs. i \<noteq> j \<longrightarrow>
              set (groups_of scs ! i) \<inter> set (groups_of scs ! j) = {}"
    using distinct_concat_disjoint [OF dist] by (simp add: groups_of_def)
  have "set (concat (groups_of scs)) = {0..<P}"
    using set_countdown [of P] assms(1) by (simp add: groups_of_def scs(3))
  then have cover: "\<Union> (set ` set (groups_of scs)) = {0..<P}"
    by (simp only: set_concat)
  have sizes: "\<forall>i<length scs. int (length (groups_of scs ! i)) =
              P div min S P + (if int i < P mod min S P then 1 else 0)"
    using scs(4) by (simp add: groups_of_def scs(2))
  have d1: "1 \<le> P div min S P"
    using m assms by (simp add: pos_imp_zdiv_pos_iff int_one_le_iff_zero_less)
  have nonempty: "\<forall>g\<in>set (groups_of scs). g \<noteq> []"
  proof
    fix g assume "g \<in> set (groups_of scs)"
    then obtain i where i: "i < length scs" "g = groups_of scs ! i"
      by (auto simp: in_set_conv_nth groups_of_def)
    with sizes have "int (length g) = P div min S P + (if int i < P mod min S P then 1 else 0)"
      by blast
    with d1 have "0 < int (length g)" by (simp split: if_splits)
    then show "g \<noteq> []" by auto
  qed
  have balance: "\<forall>i<length scs. \<forall>j<length scs.
              \<bar>int (length (groups_of scs ! i)) - int (length (groups_of scs ! j))\<bar> \<le> 1"
    using sizes by (simp split: if_splits)
  show ?thesis
    using scs(1) len disj nonempty cover sizes balance by blast
qed

text \<open>
  C3: when the metadata service answers the partition-count query with success and a
  partition count \<open>P\<close>, for \<open>P\<close> and a requested split count \<open>S\<close> both at least 1
  (and within \<open>int\<close>), the completion handler of \<open>async_get_unordered_scanners\<close> hands
  its continuation \<open>min S P\<close> scanners, and \<open>get_unordered_scanners\<close> returns the
  same. Their groups are pairwise disjoint, none is empty, together they are exactly
  the indices from 0 up to \<open>P - 1\<close>, group \<open>i\<close> has \<open>P div min S P\<close> indices and one
  more when \<open>i < P mod min S P\<close>, so sizes differ by at most one.
\<close>

theorem split_scan_partition:
  assumes "1 \<le> P" "P < 2 ^ 31" "1 \<le> S" "S < 2 ^ 31"
    and "call = \<lparr>request = RPC_CM_QUERY_PARTITION_CONFIG_BY_INDEX (app_name env),
                  timeout = timeout_ms options, partition_hash = 0\<rparr>"
    and "query_config_reply (rpc env) call = (ERR_OK env, response)"
    and "cfg_err response = ERR_OK env" "cfg_partition_count response = P"
  shows "\<exists>scanners.
           (\<forall>f w. async_get_unordered_scanners env S options (Some f) w =
                    Inr (delivers (get_client_error env (ERR_OK env), scanners) [call]
                           (Some f) w)) \<and>
           get_unordered_scanners env S options scs st =
             Inr (Some \<lparr>result_code = get_client_error env (ERR_OK env),
                         result_out = scanners, result_info = None,
                         result_sent = st @ [call]\<rparr>) \<and>
           split_scanners env P S options = Inr scanners \<and>
           int (length scanners) = min S P \<and>
           (\<forall>i<length scanners. \<forall>j<length scanners. i \<noteq> j \<longrightarrow>
              set (groups_of scanners ! i) \<inter> set (groups_of scanners ! j) = {}) \<and>
           (\<forall>g\<in>set (groups_of scanners). g \<noteq> []) \<and>
           \<Union> (set ` set (groups_of scanners)) = {0..<P} \<and>
           (\<forall>i<length scanners. int (length (groups_of scanners ! i)) =
              P div min S P + (if int i < P mod min S P then 1 else 0)) \<and>
           (\<forall>i<length scanners. \<forall>j<length scanners.
              \<bar>int (length (groups_of scanners ! i)) - int (length (groups_of scanners ! j))\<bar> \<le> 1)"
proof -
  obtain scanners where all: "split_scanners env P S options = Inr scanners \<and>
           int (length scanners) = min S P \<and>
           (\<forall>i<length scanners. \<forall>j<length scanners. i \<noteq> j \<longrightarrow>
              set (groups_of scanners ! i) \<inter> set (groups_of scanners ! j) = {}) \<and>
           (\<forall>g\<in>set (groups_of scanners). g \<noteq> []) \<and>
           \<Union> (set ` set (groups_of scanners)) = {0..<P} \<and>
           (\<forall>i<length scanners. int (length (groups_of scanners ! i)) =
              P div min S P + (if int i < P mod min S P then 1 else 0)) \<and>
           (\<forall>i<length scanners. \<forall>j<length scanners.
              \<bar>int (length (groups_of scanners ! i)) - int (length (groups_of scanners ! j))\<bar> \<le> 1)"
    using split_scanners_partition [OF assms(1-4), of env options] ..
  note sc = all [THEN conjunct1]
  have pos: "\<not> S \<le> 0" using assms(3) by simp
  have handler: "scanners_new_callback env f S options (query_config_reply (rpc env) call) w' =
      Inr (w'\<lparr>user := f (get_client_error env (ERR_OK env), scanners) (user w')\<rparr>)" for f w'
    by (simp add: scanners_new_callback_def Let_def assms(6-8) sc)
  have async: "async_get_unordered_scanners env S options (Some f) w =
      Inr (delivers (get_client_error env (ERR_OK env), scanners) [call] (Some f) w)" for f w
    using pos
    by (simp add: async_get_unordered_scanners_def Let_def assms(5) [symmetric] handler
          delivers_def invoke_def)
  then have async_all: "\<forall>f w. async_get_unordered_scanners env S options (Some f) w =
      Inr (delivers (get_client_error env (ERR_OK env), scanners) [call] (Some f) w)"
    by (intro allI)
  have sync: "get_unordered_scanners env S options scs st =
             Inr (Some \<lparr>result_code = get_client_error env (ERR_OK env),
                         result_out = scanners, result_info = None,
                         result_sent = st @ [call]\<rparr>)"
    by (simp add: get_unordered_scanners_def async delivers_def invoke_def wait_def
          scanners_callback_def new_slot_def)
  show ?thesis
    by (rule exI [where x = scanners]) (rule conjI [OF async_all conjI [OF sync all]])
qed

theorem split_scan_partition_witness:
  "(1::int) \<le> 10 \<and> (10::int) < 2 ^ 31 \<and> (1::int) \<le> 4 \<and> (4::int) < 2 ^ 31 \<and>
   query_config_reply (rpc sample_env)
     \<lparr>request = RPC_CM_QUERY_PARTITION_CONFIG_BY_INDEX (app_name sample_env),
      timeout = timeout_ms sample_options, partition_hash = 0\<rparr> =
     (ERR_OK sample_env, \<lparr>cfg_err = ERR_OK sample_env, cfg_partition_count = 10\<rparr>) \<and>
   (\<exists>scanners.
      get_unordered_scanners sample_env 4 sample_options [] [] =
        Inr (Some \<lparr>result_code = get_client_error sample_env (ERR_OK sample_env),
                    result_out = scanners, result_info = None,
                    result_sent =
                      [\<lparr>request = RPC_CM_QUERY_PARTITION_CONFIG_BY_INDEX (app_name sample_env),
                        timeout = timeout_ms sample_options, partition_hash = 0\<rparr>]\<rparr>) \<and>
      groups_of scanners = [[9, 8, 7], [6, 5, 4], [3, 2], [1, 0]] \<and>
      int (length scanners) = min 4 10 \<and>
      \<Union> (set ` set (groups_of scanners)) = {0..<10}) \<and>
   get_client_error sample_env (ERR_OK sample_env) = PERR_OK sample_env"
proof -
  have reply: "query_config_reply (rpc sample_env)
     \<lparr>request = RPC_CM_QUERY_PARTITION_CONFIG_BY_INDEX (app_name sample_env),
      timeout = timeout_ms sample_options, partition_hash = 0\<rparr> =
     (ERR_OK sample_env, \<lparr>cfg_err = ERR_OK sample_env, cfg_partition_count = 10\<rparr>)"
    by (simp add: sample_env_def sample_transport_def)
  have ok: "get_client_error sample_env (ERR_OK sample_env) = PERR_OK sample_env"
    by (simp add: get_client_error_def init_error_eq) (simp add: sample_env_def)
  obtain scanners where sc:
    "get_unordered_scanners sample_env 4 sample_options [] [] =
        Inr (Some \<lparr>result_code = get_client_error sample_env (ERR_OK sample_env),
                    result_out = scanners, result_info = None,
                    result_sent = [] @
                      [\<lparr>request = RPC_CM_QUERY_PARTITION_CONFIG_BY_INDEX (app_name sample_env),
                        timeout = timeout_ms sample_options, partition_hash = 0\<rparr>]\<rparr>)"
    "split_scanners sample_env 10 4 sample_options = Inr scanners"
    "int (length scanners) = min 4 10"
    "\<Union> (set ` set (groups_of scanners)) = {0..<10}"
    using split_scan_partition [of 10 4 _ sample_env sample_options _ "[]" "[]", OF _ _ _ _ refl reply]
    by auto
  have "map_sum id groups_of (split_scanners sample_env 10 4 sample_options) =
          Inr [[9, 8, 7], [6, 5, 4], [3, 2], [1, 0]]"
    by code_simp
  with sc(2) have "groups_of scanners = [[9, 8, 7], [6, 5, 4], [3, 2], [1, 0]]"
    by simp
  with sc reply ok show ?thesis by auto
qed

section \<open>Keys: byte order and the hash-key segment\<close>

text \<open>
  The comparison \<open>get_scanner\<close> makes with \<open>memcmp\<close> and the two lengths is the
  byte-wise order of the keys.
\<close>

lemma memcmp_less:
  "(memcmp a b (min (length a) (length b)) < 0 \<or>
    (memcmp a b (min (length a) (length b)) = 0 \<and> length a < length b)) \<longleftrightarrow> bytes_less a b"
  unfolding bytes_less_def
proof (induction a arbitrary: b)
  case Nil
  show ?case by (cases b) auto
next
  case (Cons x xs)
  show ?case
  proof (cases b)
    case Nil
    then show ?thesis by simp
  next
    case (Cons y ys)
    show ?thesis
      using Cons.IH [of ys] by (auto simp: Cons)
  qed
qed

lemma memcmp_eq:
  "(memcmp a b (min (length a) (length b)) = 0 \<and> length a = length b) \<longleftrightarrow> a = b"
proof (induction a arbitrary: b)
  case Nil
  show ?case by (cases b) auto
next
  case (Cons x xs)
  show ?case
  proof (cases b)
    case Nil
    then show ?thesis by simp
  next
    case (Cons y ys)
    show ?thesis
      using Cons.IH [of ys] by (auto simp: Cons)
  qed
qed

lemma be16_decode:
  assumes "n < 65536"
  shows "256 * unat (of_nat ((n div 256) mod 256) :: byte) + unat (of_nat (n mod 256) :: byte) = n"
proof -
  have "n div 256 < 256" using assms by simp
  then show ?thesis by (simp add: unat_of_nat)
qed

lemma hash_key_segment_generate_key:
  assumes "length h < 65536"
  shows "hash_key_segment (pegasus_generate_key h s) = h"
proof -
  have "hash_key_segment (pegasus_generate_key h s) =
          take (256 * unat (of_nat ((length h div 256) mod 256) :: byte) +
                unat (of_nat (length h mod 256) :: byte)) (h @ s)"
    by (simp only: hash_key_segment_def pegasus_generate_key_def be16_def list.case
          append_Cons append_Nil)
  also have "\<dots> = take (length h) (h @ s)"
    by (simp only: be16_decode [OF assms])
  finally show ?thesis by simp
qed

section \<open>Validation before any request\<close>

lemma rejects_with_invoke: "rejects_with cb a w (invoke cb a w)"
  by (simp add: rejects_with_def invoke_def split: option.splits)

lemma wait_info_callback:
  "wait (invoke (Some info_callback) (e, i) \<lparr>sent = st, user = new_slot () info\<rparr>) =
     Some \<lparr>result_code = e, result_out = (),
           result_info = (if info \<noteq> None then Some i else None), result_sent = st\<rparr>"
  by (simp add: wait_def invoke_def info_callback_def new_slot_def)

lemma wait_out_callback:
  "wait (invoke (Some out_callback) (e, out, i) \<lparr>sent = st, user = new_slot out0 info\<rparr>) =
     Some \<lparr>result_code = e, result_out = out,
           result_info = (if info \<noteq> None then Some i else None), result_sent = st\<rparr>"
  by (simp add: wait_def invoke_def out_callback_def new_slot_def)

lemma async_set_long:
  "UINT16_MAX \<le> length h \<Longrightarrow>
   async_set env h s v cb t ttl' w = invoke cb (PERR_INVALID_HASH_KEY env, new_internal_info env) w"
  by (simp add: async_set_def)

lemma async_get_long:
  "UINT16_MAX \<le> length h \<Longrightarrow>
   async_get env h s cb t w = invoke cb (PERR_INVALID_HASH_KEY env, [], new_internal_info env) w"
  by (simp add: async_get_def)

lemma async_del_long:
  "UINT16_MAX \<le> length h \<Longrightarrow>
   async_del env h s cb t w = invoke cb (PERR_INVALID_HASH_KEY env, new_internal_info env) w"
  by (simp add: async_del_def)

lemma async_multi_set_invalid:
  "h = [] \<or> UINT16_MAX \<le> length h \<Longrightarrow>
   async_multi_set env h kvs cb t ttl' w =
     invoke cb (PERR_INVALID_HASH_KEY env, new_internal_info env) w"
  by (auto simp: async_multi_set_def)

lemma async_multi_get_invalid:
  "h = [] \<or> UINT16_MAX \<le> length h \<Longrightarrow>
   async_multi_get env h sks cb n z t w =
     invoke cb (PERR_INVALID_HASH_KEY env, Map.empty, new_internal_info env) w"
  by (auto simp: async_multi_get_def)

lemma async_multi_get_sortkeys_invalid:
  "h = [] \<or> UINT16_MAX \<le> length h \<Longrightarrow>
   async_multi_get_sortkeys env h cb n z t w =
     invoke cb (PERR_INVALID_HASH_KEY env, {}, new_internal_info env) w"
  by (auto simp: async_multi_get_sortkeys_def)

lemma async_multi_del_invalid:
  "h = [] \<or> UINT16_MAX \<le> length h \<Longrightarrow>
   async_multi_del env h sks cb t w =
     invoke cb (PERR_INVALID_HASH_KEY env, 0, new_internal_info env) w"
  by (auto simp: async_multi_del_def)

lemma sortkey_count_invalid:
  "h = [] \<or> UINT16_MAX \<le> length h \<Longrightarrow>
   sortkey_count env h n t info st =
     \<lparr>result_code = PERR_INVALID_HASH_KEY env, result_out = n,
      result_info = info, result_sent = st\<rparr>"
  by (auto simp: sortkey_count_def)

lemma ttl_long:
  "UINT16_MAX \<le> length h \<Longrightarrow>
   ttl env h s x t info st =
     \<lparr>result_code = PERR_INVALID_HASH_KEY env, result_out = x,
      result_info = info, result_sent = st\<rparr>"
  by (simp add: ttl_def)

lemma get_scanner_invalid:
  "h = [] \<or> UINT16_MAX \<le> length h \<Longrightarrow>
   get_scanner env h a b opts = (PERR_INVALID_HASH_KEY env, None)"
  by (auto simp: get_scanner_def)

lemma sync_rejects_Some:
  "sync_rejects (Some r) e st \<longleftrightarrow> result_code r = e \<and> result_sent r = st"
  by (simp add: sync_rejects_def)

lemma sync_rejects_wait_info:
  "sync_rejects
     (wait (invoke (Some info_callback) (e, i) \<lparr>sent = st, user = new_slot () info\<rparr>)) e st"
  by (simp add: wait_info_callback sync_rejects_def)

lemma sync_rejects_wait_out:
  "sync_rejects
     (wait (invoke (Some out_callback) (e, out, i) \<lparr>sent = st, user = new_slot out0 info\<rparr>)) e st"
  by (simp add: wait_out_callback sync_rejects_def)

text \<open>
  C5: with a hash-key of 65536 bytes or more, every operation that takes a hash-key fails
  with \<open>PERR_INVALID_HASH_KEY\<close> on the spot: the synchronous forms return it, the
  asynchronous forms run the continuation (when one is given) with it before they
  return, and nothing is handed to the transport. (The check in the code is
  \<open>hash_key.size() >= UINT16_MAX\<close>, so 65535 bytes are rejected too.)
\<close>

theorem long_hash_key_rejected:
  assumes "65536 \<le> length h"
  shows "sync_rejects (set_op env h s v t x info st) (PERR_INVALID_HASH_KEY env) st \<and>
         sync_rejects (Some (ttl env h s n t info st)) (PERR_INVALID_HASH_KEY env) st \<and>
         get_scanner env h a b opts = (PERR_INVALID_HASH_KEY env, None) \<and>
         rejects_with cb1 (PERR_INVALID_HASH_KEY env, new_internal_info env) w
           (async_set env h s v cb1 t x w) \<and>
         sync_rejects (get env h s v t info st) (PERR_INVALID_HASH_KEY env) st \<and>
         rejects_with cb2 (PERR_INVALID_HASH_KEY env, [], new_internal_info env) w
           (async_get env h s cb2 t w) \<and>
         sync_rejects (del env h s t info st) (PERR_INVALID_HASH_KEY env) st \<and>
         rejects_with cb1 (PERR_INVALID_HASH_KEY env, new_internal_info env) w
           (async_del env h s cb1 t w) \<and>
         sync_rejects (Some (exist env h s t info st)) (PERR_INVALID_HASH_KEY env) st \<and>
         sync_rejects (multi_set env h kvs t x info st) (PERR_INVALID_HASH_KEY env) st \<and>
         rejects_with cb1 (PERR_INVALID_HASH_KEY env, new_internal_info env) w
           (async_multi_set env h kvs cb1 t x w) \<and>
         sync_rejects (multi_get env h sks vals c z t info st) (PERR_INVALID_HASH_KEY env) st \<and>
         rejects_with cb3 (PERR_INVALID_HASH_KEY env, Map.empty, new_internal_info env) w
           (async_multi_get env h sks cb3 c z t w) \<and>
         sync_rejects (multi_get_sortkeys env h sk c z t info st)
           (PERR_INVALID_HASH_KEY env) st \<and>
         rejects_with cb4 (PERR_INVALID_HASH_KEY env, {}, new_internal_info env) w
           (async_multi_get_sortkeys env h cb4 c z t w) \<and>
         sync_rejects (multi_del env h sks n t info st) (PERR_INVALID_HASH_KEY env) st \<and>
         rejects_with cb5 (PERR_INVALID_HASH_KEY env, 0, new_internal_info env) w
           (async_multi_del env h sks cb5 t w) \<and>
         sync_rejects (Some (sortkey_count env h n t info st)) (PERR_INVALID_HASH_KEY env) st \<and>
         rejects_with cb6 (PERR_INVALID_HASH_KEY env, None) w
           (async_get_scanner env h a b opts cb6 w)"
proof -
  have long: "UINT16_MAX \<le> length h"
    using assms by (simp add: UINT16_MAX_def)
  then have inv: "h = [] \<or> UINT16_MAX \<le> length h" by simp
  have gs: "async_get_scanner env h a b opts cb6 w = invoke cb6 (PERR_INVALID_HASH_KEY env, None) w"
    by (simp add: async_get_scanner_def get_scanner_invalid [OF inv] invoke_def
          split: option.splits)
  show ?thesis
    unfolding set_op_def get_def del_def multi_set_def multi_get_def multi_get_sortkeys_def
      multi_del_def exist_def
      async_set_long [OF long] async_get_long [OF long] async_del_long [OF long]
      async_multi_set_invalid [OF inv] async_multi_get_invalid [OF inv]
      async_multi_get_sortkeys_invalid [OF inv] async_multi_del_invalid [OF inv]
      sortkey_count_invalid [OF inv] ttl_long [OF long] get_scanner_invalid [OF inv] gs
    by (simp add: rejects_with_invoke sync_rejects_wait_info sync_rejects_wait_out
          sync_rejects_Some)
qed



theorem long_hash_key_rejected_witness:
  "65536 \<le> length (replicate 65536 (0::byte)) \<and>
   PERR_INVALID_HASH_KEY sample_env = - 201 \<and>
   sync_rejects (set_op sample_env (replicate 65536 0) [97] [49] 1000 0 None [])
     (PERR_INVALID_HASH_KEY sample_env) [] \<and>
   sync_rejects (Some (ttl sample_env (replicate 65536 0) [97] 0 1000 None []))
     (PERR_INVALID_HASH_KEY sample_env) [] \<and>
   get_scanner sample_env (replicate 65536 0) [97] [98] sample_options =
     (PERR_INVALID_HASH_KEY sample_env, None)"
proof -
  have h: "65536 \<le> length (replicate 65536 (0::byte))" by simp
  have c: "PERR_INVALID_HASH_KEY sample_env = - 201" by (simp add: sample_env_def)
  note r = long_hash_key_rejected [OF h, where env = sample_env]
  have "sync_rejects (set_op sample_env (replicate 65536 0) [97] [49] 1000 0 None [])
     (PERR_INVALID_HASH_KEY sample_env) []"
    by (rule r [THEN conjunct1])
  moreover have "sync_rejects (Some (ttl sample_env (replicate 65536 0) [97] 0 1000 None []))
     (PERR_INVALID_HASH_KEY sample_env) []"
    by (rule r [THEN conjunct2, THEN conjunct1])
  moreover have "get_scanner sample_env (replicate 65536 0) [97] [98] sample_options =
     (PERR_INVALID_HASH_KEY sample_env, None)"
    by (rule r [THEN conjunct2, THEN conjunct2, THEN conjunct1])
  ultimately show ?thesis using h c by simp
qed

lemma sent_update_new_callback: "sent (update_new_callback env cb r w) = sent w"
  by (simp add: update_new_callback_def Let_def split: option.splits)

text \<open>
  C1, as the code has it: with an empty hash-key, \<open>multi_set\<close>, \<open>multi_get\<close>,
  \<open>multi_get_sortkeys\<close>, \<open>multi_del\<close> (both forms) and \<open>sortkey_count\<close> fail with
  \<open>PERR_INVALID_HASH_KEY\<close> before anything is handed to the transport. \<open>ttl\<close> and
  \<open>exist\<close> have no such check: like the other point operations they send the request
  for the key of the empty hash-key and the sort-key, and return the translation of the
  reply to it (\<open>ttl\<close> with the time to live on success, both with the info of the reply).
\<close>

theorem grouping_ops_reject_empty_hash_key:
  "sync_rejects (multi_get env [] sks vals c z t info st) (PERR_INVALID_HASH_KEY env) st \<and>
   result_sent (ttl env [] s n t info st) =
     st @ [\<lparr>request = RPC_RRDB_RRDB_TTL (pegasus_generate_key [] s), timeout = t,
            partition_hash = pegasus_key_hash (dsn_crc64_compute env)
                               (pegasus_generate_key [] s)\<rparr>] \<and>
   result_code (ttl env [] s n t info st) =
     translate_reply env
       (fst (ttl_reply (rpc env)
          \<lparr>request = RPC_RRDB_RRDB_TTL (pegasus_generate_key [] s), timeout = t,
           partition_hash = pegasus_key_hash (dsn_crc64_compute env)
                              (pegasus_generate_key [] s)\<rparr>))
       (resp_error (snd (ttl_reply (rpc env)
          \<lparr>request = RPC_RRDB_RRDB_TTL (pegasus_generate_key [] s), timeout = t,
           partition_hash = pegasus_key_hash (dsn_crc64_compute env)
                              (pegasus_generate_key [] s)\<rparr>))) \<and>
   ttl env [] s n t info st =
     (let call = \<lparr>request = RPC_RRDB_RRDB_TTL (pegasus_generate_key [] s), timeout = t,
                  partition_hash = pegasus_key_hash (dsn_crc64_compute env)
                                     (pegasus_generate_key [] s)\<rparr>;
          pr = ttl_reply (rpc env) call
      in \<lparr>result_code = translate_reply env (fst pr) (resp_error (snd pr)),
          result_out = (if fst pr = ERR_OK env \<and> resp_error (snd pr) = 0
                        then resp_payload (snd pr) else n),
          result_info = sync_info env pr info,
          result_sent = st @ [call]\<rparr>) \<and>
   exist env [] s t info st =
     (let call = \<lparr>request = RPC_RRDB_RRDB_TTL (pegasus_generate_key [] s), timeout = t,
                  partition_hash = pegasus_key_hash (dsn_crc64_compute env)
                                     (pegasus_generate_key [] s)\<rparr>;
          pr = ttl_reply (rpc env) call
      in \<lparr>result_code = translate_reply env (fst pr) (resp_error (snd pr)),
          result_out = (),
          result_info = sync_info env pr info,
          result_sent = st @ [call]\<rparr>) \<and>
   sync_rejects (multi_set env [] kvs t x info st) (PERR_INVALID_HASH_KEY env) st \<and>
   rejects_with cb1 (PERR_INVALID_HASH_KEY env, new_internal_info env) w
     (async_multi_set env [] kvs cb1 t x w) \<and>
   rejects_with cb3 (PERR_INVALID_HASH_KEY env, Map.empty, new_internal_info env) w
     (async_multi_get env [] sks cb3 c z t w) \<and>
   sync_rejects (multi_get_sortkeys env [] sk c z t info st) (PERR_INVALID_HASH_KEY env) st \<and>
   rejects_with cb4 (PERR_INVALID_HASH_KEY env, {}, new_internal_info env) w
     (async_multi_get_sortkeys env [] cb4 c z t w) \<and>
   sync_rejects (multi_del env [] sks n t info st) (PERR_INVALID_HASH_KEY env) st \<and>
   rejects_with cb5 (PERR_INVALID_HASH_KEY env, 0, new_internal_info env) w
     (async_multi_del env [] sks cb5 t w) \<and>
   sync_rejects (Some (sortkey_count env [] n t info st)) (PERR_INVALID_HASH_KEY env) st \<and>
   result_sent (exist env [] s t info st) = result_sent (ttl env [] s n t info st) \<and>
   result_code (exist env [] s t info st) = result_code (ttl env [] s n t info st)"
proof -
  have inv: "[] = [] \<or> UINT16_MAX \<le> length ([]::blob)" by simp
  have short: "\<not> UINT16_MAX \<le> length ([]::blob)" by (simp add: UINT16_MAX_def)
  show ?thesis
    unfolding multi_set_def multi_get_def multi_get_sortkeys_def multi_del_def
      async_multi_set_invalid [OF inv] async_multi_get_invalid [OF inv]
      async_multi_get_sortkeys_invalid [OF inv] async_multi_del_invalid [OF inv]
      sortkey_count_invalid [OF inv]
    by (simp add: rejects_with_invoke sync_rejects_wait_info sync_rejects_wait_out
          sync_rejects_Some ttl_def exist_def Let_def UINT16_MAX_def)
qed

theorem grouping_ops_reject_empty_hash_key_witness:
  "sync_rejects (multi_get sample_env [] [[97]] Map.empty 100 1000 1000 None [])
     (PERR_INVALID_HASH_KEY sample_env) [] \<and>
   length (result_sent (ttl sample_env [] [97] 0 1000 None [])) = 1 \<and>
   result_code (ttl sample_env [] [97] 0 1000 None []) = PERR_OK sample_env"
proof -
  note r = grouping_ops_reject_empty_hash_key
    [where env = sample_env and st = "[]" and s = "[97]" and t = 1000 and n = 0
       and info = None]
  have p: "fst (ttl_reply (rpc sample_env) call) = ERR_OK sample_env"
    "resp_error (snd (ttl_reply (rpc sample_env) call)) = 0" for call
    by (simp_all add: sample_env_def sample_transport_def ok_response_def)
  have "result_code (ttl sample_env [] [97] 0 1000 None []) =
          translate_reply sample_env (ERR_OK sample_env) 0"
    using r [THEN conjunct2, THEN conjunct2, THEN conjunct1]
    by (simp only: p)
  then have code: "result_code (ttl sample_env [] [97] 0 1000 None []) = PERR_OK sample_env"
    by (simp only: translate_ok [OF sample_codes_ok])
  have "result_sent (ttl sample_env [] [97] 0 1000 None []) =
     [] @ [\<lparr>request = RPC_RRDB_RRDB_TTL (pegasus_generate_key [] [97]), timeout = 1000,
            partition_hash = pegasus_key_hash (dsn_crc64_compute sample_env)
                               (pegasus_generate_key [] [97])\<rparr>]"
    by (rule r [THEN conjunct2, THEN conjunct1])
  then have "length (result_sent (ttl sample_env [] [97] 0 1000 None [])) = 1"
    by simp
  moreover have "sync_rejects (multi_get sample_env [] [[97]] Map.empty 100 1000 1000 None [])
     (PERR_INVALID_HASH_KEY sample_env) []"
    by (rule r [THEN conjunct1])
  ultimately show ?thesis using code by simp
qed

text \<open>
  C1 as stated fails for \<open>ttl\<close> and \<open>exist\<close>: with an empty hash-key and a server that
  answers with success, each sends one request and returns \<open>PERR_OK\<close>.
\<close>

theorem ttl_accepts_empty_hash_key:
  "\<not> sync_rejects (Some (ttl sample_env [] [97] 0 1000 None []))
       (PERR_INVALID_HASH_KEY sample_env) [] \<and>
   result_code (ttl sample_env [] [97] 0 1000 None []) = PERR_OK sample_env \<and>
   length (result_sent (ttl sample_env [] [97] 0 1000 None [])) = 1 \<and>
   \<not> sync_rejects (Some (exist sample_env [] [97] 1000 None []))
       (PERR_INVALID_HASH_KEY sample_env) [] \<and>
   length (result_sent (exist sample_env [] [97] 1000 None [])) = 1"
proof -
  have r: "fst (ttl_reply (rpc sample_env) call) = ERR_OK sample_env"
    "resp_error (snd (ttl_reply (rpc sample_env) call)) = 0" for call
    by (simp_all add: sample_env_def sample_transport_def ok_response_def)
  have c: "PERR_OK sample_env \<noteq> PERR_INVALID_HASH_KEY sample_env"
    by (simp add: sample_env_def)
  show ?thesis
    using c
    by (simp add: sync_rejects_Some ttl_def exist_def Let_def UINT16_MAX_def r
          translate_ok [OF sample_codes_ok])
qed

section \<open>Range scanners\<close>

lemma range_condition:
  "(memcmp a b (min (length a) (length b)) < 0 \<or>
    (memcmp a b (min (length a) (length b)) = 0 \<and> length a < length b) \<or>
    (memcmp a b (min (length a) (length b)) = 0 \<and> length a = length b \<and> si \<and> so)) \<longleftrightarrow>
   (bytes_less a b \<or> (a = b \<and> si \<and> so))"
  using memcmp_less [of a b] memcmp_eq [of a b] by blast

text \<open>
  C4: for a hash-key that passes validation, \<open>get_scanner\<close> returns \<open>PERR_OK\<close> and a
  scanner over the encoded start and stop keys. Its list of partition hashes is not
  empty exactly when the start key is below the stop key in byte order, or the two are
  equal and both bounds of the scanner's options are inclusive (the stop bound is made
  exclusive when no stop sort-key is given); otherwise the list is empty and the code is
  still \<open>PERR_OK\<close>.
\<close>

theorem get_scanner_work_list:
  assumes "hash_key \<noteq> []" "length hash_key < UINT16_MAX"
  shows "\<exists>v opt start stop.
           get_scanner env hash_key a b options =
             (PERR_OK env, Some (Range_Scanner v opt start stop)) \<and>
           start = pegasus_generate_key hash_key a \<and>
           stop = (if b = [] then pegasus_generate_next_blob hash_key
                   else pegasus_generate_key hash_key b) \<and>
           opt = (if b = [] then options\<lparr>stop_inclusive := False\<rparr> else options) \<and>
           (v \<noteq> [] \<longleftrightarrow>
              bytes_less start stop \<or>
              (start = stop \<and> start_inclusive opt \<and> stop_inclusive opt)) \<and>
           (v = [] \<or> v = [pegasus_key_hash (dsn_crc64_compute env) start])"
  using assms
  by (simp add: get_scanner_def Let_def range_condition)

theorem get_scanner_work_list_witness:
  "[117::byte] \<noteq> [] \<and> length [117::byte] < UINT16_MAX \<and>
   get_scanner sample_env [117] [97] [97] sample_options =
     (PERR_OK sample_env,
      Some (Range_Scanner [] sample_options [0, 1, 117, 97] [0, 1, 117, 97])) \<and>
   \<not> bytes_less [0, 1, 117, 97] [0, 1, 117, 97::byte]"
proof -
  have k: "pegasus_generate_key [117] [97] = [0, 1, 117, 97]"
    by (simp add: pegasus_generate_key_def be16_def)
  have e: "get_scanner sample_env [117] [97] [97] sample_options =
     (PERR_OK sample_env,
      Some (Range_Scanner [] sample_options [0, 1, 117, 97] [0, 1, 117, 97]))"
    by (simp add: get_scanner_def Let_def k UINT16_MAX_def sample_options_def)
  have "[117::byte] \<noteq> []" "length [117::byte] < UINT16_MAX"
    by (simp_all add: UINT16_MAX_def)
  from get_scanner_work_list [OF this, of sample_env "[97]" "[97]" sample_options] e
  show ?thesis
    by (auto simp: UINT16_MAX_def sample_options_def)
qed

section \<open>Routing\<close>

text \<open>
  C7: for a hash-key shorter than 65536 bytes, the partition hash of the encoded key does
  not depend on the sort-key; so the request \<open>async_set\<close> sends for a hash-key and any
  sort-key carries the same partition hash as the request \<open>async_multi_set\<close> sends for
  that hash-key (which hashes the key of the hash-key and the empty sort-key).
\<close>

theorem routing_ignores_sort_key:
  assumes "length h < 65536"
  shows "pegasus_key_hash crc (pegasus_generate_key h s1) =
           pegasus_key_hash crc (pegasus_generate_key h s2) \<and>
         (h \<noteq> [] \<and> length h < UINT16_MAX \<and> kvs \<noteq> [] \<longrightarrow>
            map partition_hash (sent (async_set env h s v cb t x w)) =
            map partition_hash (sent (async_multi_set env h kvs cb' t' x' w)))"
  using assms
  by (simp add: pegasus_key_hash_def hash_key_segment_generate_key async_set_def
        async_multi_set_def rrdb_call_def Let_def sent_update_new_callback)

theorem routing_ignores_sort_key_witness:
  "length [117::byte] < 65536 \<and>
   pegasus_key_hash sample_crc (pegasus_generate_key [117] [97]) = 334 \<and>
   pegasus_key_hash sample_crc (pegasus_generate_key [117] [98]) = 334"
proof -
  have h: "length [117::byte] < 65536" by simp
  have "pegasus_key_hash sample_crc (pegasus_generate_key [117] [97]) = 334"
    by (simp add: pegasus_key_hash_def hash_key_segment_generate_key sample_crc_def)
  moreover have "pegasus_key_hash sample_crc (pegasus_generate_key [117] [97]) =
      pegasus_key_hash sample_crc (pegasus_generate_key [117] [98])"
    by (rule routing_ignores_sort_key [OF h, THEN conjunct1])
  ultimately show ?thesis using h by simp
qed


section \<open>Synchronous forms\<close>

lemma wait_delivers_info:
  "wait (delivers d calls (Some info_callback) \<lparr>sent = st, user = new_slot () info\<rparr>) =
     Some \<lparr>result_code = fst d, result_out = (),
           result_info = (if info \<noteq> None then Some (snd d) else None),
           result_sent = st @ calls\<rparr>"
  by (cases d) (simp add: delivers_def wait_def invoke_def info_callback_def new_slot_def)

lemma wait_delivers_out:
  "wait (delivers d calls (Some out_callback) \<lparr>sent = st, user = new_slot out info\<rparr>) =
     Some \<lparr>result_code = fst d, result_out = fst (snd d),
           result_info = (if info \<noteq> None then Some (snd (snd d)) else None),
           result_sent = st @ calls\<rparr>"
  by (cases d) (auto simp: delivers_def wait_def invoke_def out_callback_def new_slot_def)

lemma bridge_info_delivers:
  "bridge_info (delivers d calls) info st =
     Some \<lparr>result_code = fst d, result_out = (),
           result_info = (if info \<noteq> None then Some (snd d) else None),
           result_sent = st @ calls\<rparr>"
  by (simp only: bridge_info_def wait_delivers_info)

lemma bridge_out_delivers:
  "bridge_out (delivers d calls) out info st =
     Some \<lparr>result_code = fst d, result_out = fst (snd d),
           result_info = (if info \<noteq> None then Some (snd (snd d)) else None),
           result_sent = st @ calls\<rparr>"
  by (simp only: bridge_out_def wait_delivers_out)

text \<open>
  Each asynchronous form, given a continuation, is of the shape \<open>delivers\<close>: what it
  delivers and what it sends can be read off a run with the recording continuation.
\<close>

lemma async_set_delivers:
  "async_set env h s v (Some f) t x w =
     delivers (hd (user (async_set env h s v (Some record_delivery) t x \<lparr>sent = [], user = []\<rparr>)))
       (sent (async_set env h s v (Some record_delivery) t x \<lparr>sent = [], user = []\<rparr>)) (Some f) w"
  by (simp add: async_set_def update_new_callback_def delivers_def invoke_def rrdb_call_def
        record_delivery_def Let_def)

lemma set_bridged:
  "(\<exists>d calls.
      (\<forall>f w. async_set env h s v (Some f) t x w = delivers d calls (Some f) w) \<and>
      set_op env h s v t x info st =
        bridge_info (\<lambda>cb. async_set env h s v cb t x) info st \<and>
      set_op env h s v t x info st =
        Some \<lparr>result_code = fst d, result_out = (),
                 result_info = (if info \<noteq> None then Some (snd d) else None),
                 result_sent = st @ calls\<rparr>)"
proof -
  let ?d = "hd (user (async_set env h s v (Some record_delivery) t x \<lparr>sent = [], user = []\<rparr>))"
  let ?calls = "sent (async_set env h s v (Some record_delivery) t x \<lparr>sent = [], user = []\<rparr>)"
  have a: "\<forall>f w. async_set env h s v (Some f) t x w = delivers ?d ?calls (Some f) w"
    by (intro allI async_set_delivers)
  have b: "set_op env h s v t x info st =
        bridge_info (\<lambda>cb. async_set env h s v cb t x) info st"
    by (simp only: set_op_def bridge_info_def)
  have "set_op env h s v t x info st =
        wait (delivers ?d ?calls (Some info_callback) \<lparr>sent = st, user = new_slot () info\<rparr>)"
    unfolding set_op_def by (rule arg_cong [where f = wait]) (rule async_set_delivers)
  then have c: "set_op env h s v t x info st =
        Some \<lparr>result_code = fst ?d, result_out = (),
                 result_info = (if info \<noteq> None then Some (snd ?d) else None),
                 result_sent = st @ ?calls\<rparr>"
    by (simp only: wait_delivers_info)
  show ?thesis
    by (rule exI [where x = ?d], rule exI [where x = ?calls])
       (rule conjI [OF a conjI [OF b c]])
qed

lemma async_multi_set_delivers:
  "async_multi_set env h kvs (Some f) t x w =
     delivers (hd (user (async_multi_set env h kvs (Some record_delivery) t x \<lparr>sent = [], user = []\<rparr>)))
       (sent (async_multi_set env h kvs (Some record_delivery) t x \<lparr>sent = [], user = []\<rparr>)) (Some f) w"
  by (simp add: async_multi_set_def update_new_callback_def delivers_def invoke_def rrdb_call_def
        record_delivery_def Let_def)

lemma multi_set_bridged:
  "(\<exists>d calls.
      (\<forall>f w. async_multi_set env h kvs (Some f) t x w = delivers d calls (Some f) w) \<and>
      multi_set env h kvs t x info st =
        bridge_info (\<lambda>cb. async_multi_set env h kvs cb t x) info st \<and>
      multi_set env h kvs t x info st =
        Some \<lparr>result_code = fst d, result_out = (),
                 result_info = (if info \<noteq> None then Some (snd d) else None),
                 result_sent = st @ calls\<rparr>)"
proof -
  let ?d = "hd (user (async_multi_set env h kvs (Some record_delivery) t x \<lparr>sent = [], user = []\<rparr>))"
  let ?calls = "sent (async_multi_set env h kvs (Some record_delivery) t x \<lparr>sent = [], user = []\<rparr>)"
  have a: "\<forall>f w. async_multi_set env h kvs (Some f) t x w = delivers ?d ?calls (Some f) w"
    by (intro allI async_multi_set_delivers)
  have b: "multi_set env h kvs t x info st =
        bridge_info (\<lambda>cb. async_multi_set env h kvs cb t x) info st"
    by (simp only: multi_set_def bridge_info_def)
  have "multi_set env h kvs t x info st =
        wait (delivers ?d ?calls (Some info_callback) \<lparr>sent = st, user = new_slot () info\<rparr>)"
    unfolding multi_set_def by (rule arg_cong [where f = wait]) (rule async_multi_set_delivers)
  then have c: "multi_set env h kvs t x info st =
        Some \<lparr>result_code = fst ?d, result_out = (),
                 result_info = (if info \<noteq> None then Some (snd ?d) else None),
                 result_sent = st @ ?calls\<rparr>"
    by (simp only: wait_delivers_info)
  show ?thesis
    by (rule exI [where x = ?d], rule exI [where x = ?calls])
       (rule conjI [OF a conjI [OF b c]])
qed

lemma async_get_delivers:
  "async_get env h s (Some f) t w =
     delivers (hd (user (async_get env h s (Some record_delivery) t \<lparr>sent = [], user = []\<rparr>)))
       (sent (async_get env h s (Some record_delivery) t \<lparr>sent = [], user = []\<rparr>)) (Some f) w"
  by (simp add: async_get_def get_new_callback_def delivers_def invoke_def rrdb_call_def
        record_delivery_def Let_def)

lemma get_bridged:
  "(\<exists>d calls.
      (\<forall>f w. async_get env h s (Some f) t w = delivers d calls (Some f) w) \<and>
      get env h s v t info st =
        bridge_out (\<lambda>cb. async_get env h s cb t) v info st \<and>
      get env h s v t info st =
        Some \<lparr>result_code = fst d, result_out = fst (snd d),
                 result_info = (if info \<noteq> None then Some (snd (snd d)) else None),
                 result_sent = st @ calls\<rparr>)"
proof -
  let ?d = "hd (user (async_get env h s (Some record_delivery) t \<lparr>sent = [], user = []\<rparr>))"
  let ?calls = "sent (async_get env h s (Some record_delivery) t \<lparr>sent = [], user = []\<rparr>)"
  have a: "\<forall>f w. async_get env h s (Some f) t w = delivers ?d ?calls (Some f) w"
    by (intro allI async_get_delivers)
  have b: "get env h s v t info st =
        bridge_out (\<lambda>cb. async_get env h s cb t) v info st"
    by (simp only: get_def bridge_out_def)
  have "get env h s v t info st =
        wait (delivers ?d ?calls (Some out_callback) \<lparr>sent = st, user = new_slot v info\<rparr>)"
    unfolding get_def by (rule arg_cong [where f = wait]) (rule async_get_delivers)
  then have c: "get env h s v t info st =
        Some \<lparr>result_code = fst ?d, result_out = fst (snd ?d),
                 result_info = (if info \<noteq> None then Some (snd (snd ?d)) else None),
                 result_sent = st @ ?calls\<rparr>"
    by (simp only: wait_delivers_out)
  show ?thesis
    by (rule exI [where x = ?d], rule exI [where x = ?calls])
       (rule conjI [OF a conjI [OF b c]])
qed

lemma async_multi_get_delivers:
  "async_multi_get env h sks (Some f) c z t w =
     delivers (hd (user (async_multi_get env h sks (Some record_delivery) c z t \<lparr>sent = [], user = []\<rparr>)))
       (sent (async_multi_get env h sks (Some record_delivery) c z t \<lparr>sent = [], user = []\<rparr>)) (Some f) w"
  by (simp add: async_multi_get_def multi_get_new_callback_def delivers_def invoke_def rrdb_call_def
        record_delivery_def Let_def)

lemma multi_get_bridged:
  "(\<exists>d calls.
      (\<forall>f w. async_multi_get env h sks (Some f) c z t w = delivers d calls (Some f) w) \<and>
      multi_get env h sks vals c z t info st =
        bridge_out (\<lambda>cb. async_multi_get env h sks cb c z t) vals info st \<and>
      multi_get env h sks vals c z t info st =
        Some \<lparr>result_code = fst d, result_out = fst (snd d),
                 result_info = (if info \<noteq> None then Some (snd (snd d)) else None),
                 result_sent = st @ calls\<rparr>)"
proof -
  let ?d = "hd (user (async_multi_get env h sks (Some record_delivery) c z t \<lparr>sent = [], user = []\<rparr>))"
  let ?calls = "sent (async_multi_get env h sks (Some record_delivery) c z t \<lparr>sent = [], user = []\<rparr>)"
  have a: "\<forall>f w. async_multi_get env h sks (Some f) c z t w = delivers ?d ?calls (Some f) w"
    by (intro allI async_multi_get_delivers)
  have b: "multi_get env h sks vals c z t info st =
        bridge_out (\<lambda>cb. async_multi_get env h sks cb c z t) vals info st"
    by (simp only: multi_get_def bridge_out_def)
  have "multi_get env h sks vals c z t info st =
        wait (delivers ?d ?calls (Some out_callback) \<lparr>sent = st, user = new_slot vals info\<rparr>)"
    unfolding multi_get_def by (rule arg_cong [where f = wait]) (rule async_multi_get_delivers)
  then have c: "multi_get env h sks vals c z t info st =
        Some \<lparr>result_code = fst ?d, result_out = fst (snd ?d),
                 result_info = (if info \<noteq> None then Some (snd (snd ?d)) else None),
                 result_sent = st @ ?calls\<rparr>"
    by (simp only: wait_delivers_out)
  show ?thesis
    by (rule exI [where x = ?d], rule exI [where x = ?calls])
       (rule conjI [OF a conjI [OF b c]])
qed

lemma async_multi_get_sortkeys_delivers:
  "async_multi_get_sortkeys env h (Some f) c z t w =
     delivers (hd (user (async_multi_get_sortkeys env h (Some record_delivery) c z t \<lparr>sent = [], user = []\<rparr>)))
       (sent (async_multi_get_sortkeys env h (Some record_delivery) c z t \<lparr>sent = [], user = []\<rparr>)) (Some f) w"
  by (simp add: async_multi_get_sortkeys_def multi_get_sortkeys_new_callback_def delivers_def invoke_def rrdb_call_def
        record_delivery_def Let_def)

lemma multi_get_sortkeys_bridged:
  "(\<exists>d calls.
      (\<forall>f w. async_multi_get_sortkeys env h (Some f) c z t w = delivers d calls (Some f) w) \<and>
      multi_get_sortkeys env h sk c z t info st =
        bridge_out (\<lambda>cb. async_multi_get_sortkeys env h cb c z t) sk info st \<and>
      multi_get_sortkeys env h sk c z t info st =
        Some \<lparr>result_code = fst d, result_out = fst (snd d),
                 result_info = (if info \<noteq> None then Some (snd (snd d)) else None),
                 result_sent = st @ calls\<rparr>)"
proof -
  let ?d = "hd (user (async_multi_get_sortkeys env h (Some record_delivery) c z t \<lparr>sent = [], user = []\<rparr>))"
  let ?calls = "sent (async_multi_get_sortkeys env h (Some record_delivery) c z t \<lparr>sent = [], user = []\<rparr>)"
  have a: "\<forall>f w. async_multi_get_sortkeys env h (Some f) c z t w = delivers ?d ?calls (Some f) w"
    by (intro allI async_multi_get_sortkeys_delivers)
  have b: "multi_get_sortkeys env h sk c z t info st =
        bridge_out (\<lambda>cb. async_multi_get_sortkeys env h cb c z t) sk info st"
    by (simp only: multi_get_sortkeys_def bridge_out_def)
  have "multi_get_sortkeys env h sk c z t info st =
        wait (delivers ?d ?calls (Some out_callback) \<lparr>sent = st, user = new_slot sk info\<rparr>)"
    unfolding multi_get_sortkeys_def by (rule arg_cong [where f = wait]) (rule async_multi_get_sortkeys_delivers)
  then have c: "multi_get_sortkeys env h sk c z t info st =
        Some \<lparr>result_code = fst ?d, result_out = fst (snd ?d),
                 result_info = (if info \<noteq> None then Some (snd (snd ?d)) else None),
                 result_sent = st @ ?calls\<rparr>"
    by (simp only: wait_delivers_out)
  show ?thesis
    by (rule exI [where x = ?d], rule exI [where x = ?calls])
       (rule conjI [OF a conjI [OF b c]])
qed

lemma async_del_delivers:
  "async_del env h s (Some f) t w =
     delivers (hd (user (async_del env h s (Some record_delivery) t \<lparr>sent = [], user = []\<rparr>)))
       (sent (async_del env h s (Some record_delivery) t \<lparr>sent = [], user = []\<rparr>)) (Some f) w"
  by (simp add: async_del_def update_new_callback_def delivers_def invoke_def rrdb_call_def
        record_delivery_def Let_def)

lemma del_bridged:
  "(\<exists>d calls.
      (\<forall>f w. async_del env h s (Some f) t w = delivers d calls (Some f) w) \<and>
      del env h s t info st =
        bridge_info (\<lambda>cb. async_del env h s cb t) info st \<and>
      del env h s t info st =
        Some \<lparr>result_code = fst d, result_out = (),
                 result_info = (if info \<noteq> None then Some (snd d) else None),
                 result_sent = st @ calls\<rparr>)"
proof -
  let ?d = "hd (user (async_del env h s (Some record_delivery) t \<lparr>sent = [], user = []\<rparr>))"
  let ?calls = "sent (async_del env h s (Some record_delivery) t \<lparr>sent = [], user = []\<rparr>)"
  have a: "\<forall>f w. async_del env h s (Some f) t w = delivers ?d ?calls (Some f) w"
    by (intro allI async_del_delivers)
  have b: "del env h s t info st =
        bridge_info (\<lambda>cb. async_del env h s cb t) info st"
    by (simp only: del_def bridge_info_def)
  have "del env h s t info st =
        wait (delivers ?d ?calls (Some info_callback) \<lparr>sent = st, user = new_slot () info\<rparr>)"
    unfolding del_def by (rule arg_cong [where f = wait]) (rule async_del_delivers)
  then have c: "del env h s t info st =
        Some \<lparr>result_code = fst ?d, result_out = (),
                 result_info = (if info \<noteq> None then Some (snd ?d) else None),
                 result_sent = st @ ?calls\<rparr>"
    by (simp only: wait_delivers_info)
  show ?thesis
    by (rule exI [where x = ?d], rule exI [where x = ?calls])
       (rule conjI [OF a conjI [OF b c]])
qed

lemma async_multi_del_delivers:
  "async_multi_del env h sks (Some f) t w =
     delivers (hd (user (async_multi_del env h sks (Some record_delivery) t \<lparr>sent = [], user = []\<rparr>)))
       (sent (async_multi_del env h sks (Some record_delivery) t \<lparr>sent = [], user = []\<rparr>)) (Some f) w"
  by (simp add: async_multi_del_def multi_del_new_callback_def delivers_def invoke_def rrdb_call_def
        record_delivery_def Let_def)

lemma multi_del_bridged:
  "(\<exists>d calls.
      (\<forall>f w. async_multi_del env h sks (Some f) t w = delivers d calls (Some f) w) \<and>
      multi_del env h sks n t info st =
        bridge_out (\<lambda>cb. async_multi_del env h sks cb t) n info st \<and>
      multi_del env h sks n t info st =
        Some \<lparr>result_code = fst d, result_out = fst (snd d),
                 result_info = (if info \<noteq> None then Some (snd (snd d)) else None),
                 result_sent = st @ calls\<rparr>)"
proof -
  let ?d = "hd (user (async_multi_del env h sks (Some record_delivery) t \<lparr>sent = [], user = []\<rparr>))"
  let ?calls = "sent (async_multi_del env h sks (Some record_delivery) t \<lparr>sent = [], user = []\<rparr>)"
  have a: "\<forall>f w. async_multi_del env h sks (Some f) t w = delivers ?d ?calls (Some f) w"
    by (intro allI async_multi_del_delivers)
  have b: "multi_del env h sks n t info st =
        bridge_out (\<lambda>cb. async_multi_del env h sks cb t) n info st"
    by (simp only: multi_del_def bridge_out_def)
  have "multi_del env h sks n t info st =
        wait (delivers ?d ?calls (Some out_callback) \<lparr>sent = st, user = new_slot n info\<rparr>)"
    unfolding multi_del_def by (rule arg_cong [where f = wait]) (rule async_multi_del_delivers)
  then have c: "multi_del env h sks n t info st =
        Some \<lparr>result_code = fst ?d, result_out = fst (snd ?d),
                 result_info = (if info \<noteq> None then Some (snd (snd ?d)) else None),
                 result_sent = st @ ?calls\<rparr>"
    by (simp only: wait_delivers_out)
  show ?thesis
    by (rule exI [where x = ?d], rule exI [where x = ?calls])
       (rule conjI [OF a conjI [OF b c]])
qed

lemma async_get_scanner_delivers:
  "(\<forall>f w. async_get_scanner env h a b opts (Some f) w =
            delivers (get_scanner env h a b opts) [] (Some f) w)"
  by (simp add: async_get_scanner_def delivers_def invoke_def)

lemma wait_delivers_scanners:
  "wait (delivers d calls (Some scanners_callback) \<lparr>sent = st, user = new_slot scs None\<rparr>) =
     Some \<lparr>result_code = fst d, result_out = snd d, result_info = None,
           result_sent = st @ calls\<rparr>"
  by (cases d) (simp add: delivers_def wait_def invoke_def scanners_callback_def new_slot_def)

lemma get_unordered_scanners_bridged:
  "((\<exists>e. (\<forall>f w. async_get_unordered_scanners env m opts (Some f) w = Inl e) \<and>
         get_unordered_scanners env m opts scs st = Inl e) \<or>
    (\<exists>d calls.
       (\<forall>f w. async_get_unordered_scanners env m opts (Some f) w =
                Inr (delivers d calls (Some f) w)) \<and>
       get_unordered_scanners env m opts scs st =
         Inr (Some \<lparr>result_code = fst d, result_out = snd d, result_info = None,
                     result_sent = st @ calls\<rparr>)))"
proof (cases "m \<le> 0")
  case True
  have run: "async_get_unordered_scanners env m opts (Some f) w =
                Inr (delivers (PERR_INVALID_SPLIT_COUNT env, []) [] (Some f) w)" for f w
    using True by (simp add: async_get_unordered_scanners_def delivers_def invoke_def)
  have a: "\<forall>f w. async_get_unordered_scanners env m opts (Some f) w =
                Inr (delivers (PERR_INVALID_SPLIT_COUNT env, []) [] (Some f) w)"
    by (simp add: run)
  have "get_unordered_scanners env m opts scs st =
         Inr (wait (delivers (PERR_INVALID_SPLIT_COUNT env, []) [] (Some scanners_callback)
                      \<lparr>sent = st, user = new_slot scs None\<rparr>))"
    by (simp add: get_unordered_scanners_def run)
  then have b: "get_unordered_scanners env m opts scs st =
         Inr (Some \<lparr>result_code = fst (PERR_INVALID_SPLIT_COUNT env, []::pegasus_scanner list),
                     result_out = snd (PERR_INVALID_SPLIT_COUNT env, []::pegasus_scanner list),
                     result_info = None, result_sent = st @ []\<rparr>)"
    by (simp only: wait_delivers_scanners)
  show ?thesis
    by (rule disjI2, rule exI [where x = "(PERR_INVALID_SPLIT_COUNT env, [])"],
        rule exI [where x = "[]"]) (rule conjI [OF a b])
next
  case False
  define call where "call = \<lparr>request = RPC_CM_QUERY_PARTITION_CONFIG_BY_INDEX (app_name env),
                         timeout = timeout_ms opts, partition_hash = 0\<rparr>"
  define reply where "reply = query_config_reply (rpc env) call"
  define outcome where "outcome =
     (if fst reply = ERR_OK env \<and> cfg_err (snd reply) = ERR_OK env
      then split_scanners env (cfg_partition_count (snd reply)) m opts else Inr [])"
  define ret where "ret =
     get_client_error env (if fst reply = ERR_OK env then cfg_err (snd reply) else fst reply)"
  have run: "async_get_unordered_scanners env m opts (Some f) w =
      (case outcome of
         Inl e \<Rightarrow> Inl e
       | Inr scanners \<Rightarrow> Inr (delivers (ret, scanners) [call] (Some f) w))" for f w
    using False
    by (simp add: async_get_unordered_scanners_def scanners_new_callback_def Let_def
          delivers_def invoke_def call_def reply_def outcome_def ret_def
          split: sum.splits)
  show ?thesis
  proof (cases outcome)
    case (Inl e)
    have a: "\<forall>f w. async_get_unordered_scanners env m opts (Some f) w = Inl e"
      by (simp add: run Inl)
    have b: "get_unordered_scanners env m opts scs st = Inl e"
      by (simp add: get_unordered_scanners_def run Inl)
    show ?thesis
      by (rule disjI1, rule exI [where x = e]) (rule conjI [OF a b])
  next
    case (Inr scanners)
    have a: "\<forall>f w. async_get_unordered_scanners env m opts (Some f) w =
                Inr (delivers (ret, scanners) [call] (Some f) w)"
      by (simp add: run Inr)
    have "get_unordered_scanners env m opts scs st =
         Inr (wait (delivers (ret, scanners) [call] (Some scanners_callback)
                      \<lparr>sent = st, user = new_slot scs None\<rparr>))"
      by (simp add: get_unordered_scanners_def run Inr)
    then have b: "get_unordered_scanners env m opts scs st =
         Inr (Some \<lparr>result_code = fst (ret, scanners), result_out = snd (ret, scanners),
                     result_info = None, result_sent = st @ [call]\<rparr>)"
      by (simp only: wait_delivers_scanners)
    show ?thesis
      by (rule disjI2, rule exI [where x = "(ret, scanners)"], rule exI [where x = "[call]"])
         (rule conjI [OF a b])
  qed
qed

text \<open>
  C8, as the code has it: for \<open>set\<close>, \<open>multi_set\<close>, \<open>get\<close>, \<open>multi_get\<close>,
  \<open>multi_get_sortkeys\<close>, \<open>del\<close> and \<open>multi_del\<close> the asynchronous form, given any
  continuation, sends its requests and runs the continuation once on one delivery; the
  synchronous form is the bridging pattern over that asynchronous form; and it returns
  (it does not block) the delivered code, with the delivered output and info, after the
  same requests. \<open>get_unordered_scanners\<close> is built the same way: either the handler
  faults in both forms alike, or the synchronous form returns the delivered code and
  scanners. For \<open>get_scanner\<close> it is the asynchronous form that is built on the
  synchronous one: it sends nothing and delivers what \<open>get_scanner\<close> returns.
  \<open>sortkey_count\<close>, \<open>ttl\<close> and \<open>exist\<close> are left out: they have no asynchronous form.
\<close>

theorem sync_forms_return_async_delivery:
  "(\<exists>d calls.
      (\<forall>f w. async_set env h s v (Some f) t x w = delivers d calls (Some f) w) \<and>
      set_op env h s v t x info st =
        bridge_info (\<lambda>cb. async_set env h s v cb t x) info st \<and>
      set_op env h s v t x info st =
        Some \<lparr>result_code = fst d, result_out = (),
                 result_info = (if info \<noteq> None then Some (snd d) else None),
                 result_sent = st @ calls\<rparr>) \<and>
   (\<exists>d calls.
      (\<forall>f w. async_multi_set env h kvs (Some f) t x w = delivers d calls (Some f) w) \<and>
      multi_set env h kvs t x info st =
        bridge_info (\<lambda>cb. async_multi_set env h kvs cb t x) info st \<and>
      multi_set env h kvs t x info st =
        Some \<lparr>result_code = fst d, result_out = (),
                 result_info = (if info \<noteq> None then Some (snd d) else None),
                 result_sent = st @ calls\<rparr>) \<and>
   (\<exists>d calls.
      (\<forall>f w. async_get env h s (Some f) t w = delivers d calls (Some f) w) \<and>
      get env h s v t info st =
        bridge_out (\<lambda>cb. async_get env h s cb t) v info st \<and>
      get env h s v t info st =
        Some \<lparr>result_code = fst d, result_out = fst (snd d),
                 result_info = (if info \<noteq> None then Some (snd (snd d)) else None),
                 result_sent = st @ calls\<rparr>) \<and>
   (\<exists>d calls.
      (\<forall>f w. async_multi_get env h sks (Some f) c z t w = delivers d calls (Some f) w) \<and>
      multi_get env h sks vals c z t info st =
        bridge_out (\<lambda>cb. async_multi_get env h sks cb c z t) vals info st \<and>
      multi_get env h sks vals c z t info st =
        Some \<lparr>result_code = fst d, result_out = fst (snd d),
                 result_info = (if info \<noteq> None then Some (snd (snd d)) else None),
                 result_sent = st @ calls\<rparr>) \<and>
   (\<exists>d calls.
      (\<forall>f w. async_multi_get_sortkeys env h (Some f) c z t w = delivers d calls (Some f) w) \<and>
      multi_get_sortkeys env h sk c z t info st =
        bridge_out (\<lambda>cb. async_multi_get_sortkeys env h cb c z t) sk info st \<and>
      multi_get_sortkeys env h sk c z t info st =
        Some \<lparr>result_code = fst d, result_out = fst (snd d),
                 result_info = (if info \<noteq> None then Some (snd (snd d)) else None),
                 result_sent = st @ calls\<rparr>) \<and>
   (\<exists>d calls.
      (\<forall>f w. async_del env h s (Some f) t w = delivers d calls (Some f) w) \<and>
      del env h s t info st =
        bridge_info (\<lambda>cb. async_del env h s cb t) info st \<and>
      del env h s t info st =
        Some \<lparr>result_code = fst d, result_out = (),
                 result_info = (if info \<noteq> None then Some (snd d) else None),
                 result_sent = st @ calls\<rparr>) \<and>
   (\<exists>d calls.
      (\<forall>f w. async_multi_del env h sks (Some f) t w = delivers d calls (Some f) w) \<and>
      multi_del env h sks n t info st =
        bridge_out (\<lambda>cb. async_multi_del env h sks cb t) n info st \<and>
      multi_del env h sks n t info st =
        Some \<lparr>result_code = fst d, result_out = fst (snd d),
                 result_info = (if info \<noteq> None then Some (snd (snd d)) else None),
                 result_sent = st @ calls\<rparr>) \<and>
   (\<forall>f w. async_get_scanner env h a b opts (Some f) w =
            delivers (get_scanner env h a b opts) [] (Some f) w) \<and>
   ((\<exists>e. (\<forall>f w. async_get_unordered_scanners env m opts (Some f) w = Inl e) \<and>
         get_unordered_scanners env m opts scs st = Inl e) \<or>
    (\<exists>d calls.
       (\<forall>f w. async_get_unordered_scanners env m opts (Some f) w =
                Inr (delivers d calls (Some f) w)) \<and>
       get_unordered_scanners env m opts scs st =
         Inr (Some \<lparr>result_code = fst d, result_out = snd d, result_info = None,
                     result_sent = st @ calls\<rparr>)))"
  by (intro conjI set_bridged multi_set_bridged get_bridged multi_get_bridged
        multi_get_sortkeys_bridged del_bridged multi_del_bridged
        async_get_scanner_delivers get_unordered_scanners_bridged)

theorem sync_forms_return_async_delivery_witness:
  "\<exists>d calls.
     (\<forall>f (w :: unit world).
        async_set sample_env [117] [97] [49] (Some f) 1000 0 w = delivers d calls (Some f) w) \<and>
     set_op sample_env [117] [97] [49] 1000 0 None [] =
       Some \<lparr>result_code = fst d, result_out = (), result_info = None, result_sent = calls\<rparr> \<and>
     fst d = PERR_OK sample_env \<and> length calls = 1"
proof -
  obtain d calls where rd:
    "\<forall>f (w :: unit world).
        async_set sample_env [117] [97] [49] (Some f) 1000 0 w = delivers d calls (Some f) w"
    "set_op sample_env [117] [97] [49] 1000 0 None [] =
       Some \<lparr>result_code = fst d, result_out = (),
             result_info = (if None \<noteq> (None :: internal_info option) then Some (snd d) else None),
             result_sent = [] @ calls\<rparr>"
    using sync_forms_return_async_delivery
      [where env = sample_env and h = "[117]" and s = "[97]" and v = "[49]" and t = 1000
         and x = 0 and info = None and st = "[]", THEN conjunct1]
    by (elim exE conjE)
  have p: "put_reply (rpc sample_env) call = (ERR_OK sample_env, ok_response ())" for call
    by (simp add: sample_env_def sample_transport_def)
  have e: "map_option (\<lambda>r. (result_code r, length (result_sent r)))
             (set_op sample_env [117] [97] [49] 1000 0 None []) =
          Some (PERR_OK sample_env, 1)"
    by (simp add: set_op_def async_set_def rrdb_call_def update_new_callback_def wait_def
          info_callback_def new_slot_def Let_def UINT16_MAX_def p ok_response_def
          translate_ok [OF sample_codes_ok])
  from rd(2) e have fd: "fst d = PERR_OK sample_env" and lc: "length calls = 1"
    by simp_all
  have s2: "set_op sample_env [117] [97] [49] 1000 0 None [] =
       Some \<lparr>result_code = fst d, result_out = (), result_info = None, result_sent = calls\<rparr>"
    using rd(2) by simp
  show ?thesis
    by (rule exI [where x = d], rule exI [where x = calls])
       (rule conjI [OF rd(1) conjI [OF s2 conjI [OF fd lc]]])
qed

text \<open>
  C8 as stated fails for \<open>ttl\<close>, \<open>sortkey_count\<close> and \<open>exist\<close>: none of them is the
  bridging pattern over an asynchronous form. A bridged form stores what is delivered,
  whatever the caller's variables held; on a hash-key of 65536 bytes \<open>ttl\<close> and
  \<open>sortkey_count\<close> return the caller's \<open>ttl_seconds\<close> and \<open>count\<close> as they were, and
  \<open>exist\<close> the caller's info as it was.
\<close>

theorem direct_sync_forms_are_not_bridged:
  "\<not> (\<exists>d calls. \<forall>n. bridge_out (delivers d calls) n None [] =
         Some (ttl sample_env (replicate 65536 0) [97] n 1000 None [])) \<and>
   \<not> (\<exists>d calls. \<forall>n. bridge_out (delivers d calls) n None [] =
         Some (sortkey_count sample_env (replicate 65536 0) n 1000 None [])) \<and>
   \<not> (\<exists>d calls. \<forall>i. bridge_info (delivers d calls) (Some i) [] =
         Some (exist sample_env (replicate 65536 0) [97] 1000 (Some i) []))"
proof -
  have long: "UINT16_MAX \<le> length (replicate 65536 (0::byte))"
    by (simp add: UINT16_MAX_def)
  then have inv: "replicate 65536 (0::byte) = [] \<or> UINT16_MAX \<le> length (replicate 65536 (0::byte))"
    by simp
  have a: "\<not> (\<exists>d calls. \<forall>n. bridge_out (delivers d calls) n None [] =
         Some (ttl sample_env (replicate 65536 0) [97] n 1000 None []))"
  proof
    assume "\<exists>d calls. \<forall>n. bridge_out (delivers d calls) n None [] =
         Some (ttl sample_env (replicate 65536 0) [97] n 1000 None [])"
    then obtain d where "\<exists>calls. \<forall>n. bridge_out (delivers d calls) n None [] =
         Some (ttl sample_env (replicate 65536 0) [97] n 1000 None [])" ..
    then obtain calls where h: "\<forall>n. bridge_out (delivers d calls) n None [] =
         Some (ttl sample_env (replicate 65536 0) [97] n 1000 None [])" ..
    from h [rule_format, of 0] h [rule_format, of 1] show False
      by (simp add: bridge_out_delivers ttl_long [OF long])
  qed
  have b: "\<not> (\<exists>d calls. \<forall>n. bridge_out (delivers d calls) n None [] =
         Some (sortkey_count sample_env (replicate 65536 0) n 1000 None []))"
  proof
    assume "\<exists>d calls. \<forall>n. bridge_out (delivers d calls) n None [] =
         Some (sortkey_count sample_env (replicate 65536 0) n 1000 None [])"
    then obtain d where "\<exists>calls. \<forall>n. bridge_out (delivers d calls) n None [] =
         Some (sortkey_count sample_env (replicate 65536 0) n 1000 None [])" ..
    then obtain calls where h: "\<forall>n. bridge_out (delivers d calls) n None [] =
         Some (sortkey_count sample_env (replicate 65536 0) n 1000 None [])" ..
    from h [rule_format, of 0] h [rule_format, of 1] show False
      by (simp add: bridge_out_delivers sortkey_count_invalid [OF inv])
  qed
  have c: "\<not> (\<exists>d calls. \<forall>i. bridge_info (delivers d calls) (Some i) [] =
         Some (exist sample_env (replicate 65536 0) [97] 1000 (Some i) []))"
  proof
    assume "\<exists>d calls. \<forall>i. bridge_info (delivers d calls) (Some i) [] =
         Some (exist sample_env (replicate 65536 0) [97] 1000 (Some i) [])"
    then obtain d where "\<exists>calls. \<forall>i. bridge_info (delivers d calls) (Some i) [] =
         Some (exist sample_env (replicate 65536 0) [97] 1000 (Some i) [])" ..
    then obtain calls where h: "\<forall>i. bridge_info (delivers d calls) (Some i) [] =
         Some (exist sample_env (replicate 65536 0) [97] 1000 (Some i) [])" ..
    from h [rule_format, of "new_internal_info sample_env"]
         h [rule_format, of "(new_internal_info sample_env)\<lparr>app_id := 7\<rparr>"]
    show False
      by (simp add: bridge_info_delivers exist_def ttl_long [OF long])
         (simp add: sample_env_def)
  qed
  from a b c show ?thesis by (intro conjI)
qed

text \<open>
  C9: with \<open>max_split_count \<le> 0\<close>, \<open>get_unordered_scanners\<close> returns
  \<open>PERR_INVALID_SPLIT_COUNT\<close> and an empty scanner vector, and
  \<open>async_get_unordered_scanners\<close> hands the same to its continuation; neither sends the
  partition-count query.
\<close>

theorem invalid_split_count:
  assumes "max_split_count \<le> 0"
  shows "get_unordered_scanners env max_split_count opts scs st =
           Inr (Some \<lparr>result_code = PERR_INVALID_SPLIT_COUNT env, result_out = [],
                       result_info = None, result_sent = st\<rparr>) \<and>
         (\<exists>w'. async_get_unordered_scanners env max_split_count opts cb w = Inr w' \<and>
               rejects_with cb (PERR_INVALID_SPLIT_COUNT env, []) w w')"
  using assms
  by (simp add: get_unordered_scanners_def async_get_unordered_scanners_def wait_def
        scanners_callback_def new_slot_def rejects_with_def split: option.splits)

theorem invalid_split_count_witness:
  "(0::int) \<le> 0 \<and>
   get_unordered_scanners sample_env 0 sample_options [] [] =
     Inr (Some \<lparr>result_code = PERR_INVALID_SPLIT_COUNT sample_env, result_out = [],
                 result_info = None, result_sent = []\<rparr>) \<and>
   PERR_INVALID_SPLIT_COUNT sample_env = - 203"
proof -
  have z: "(0::int) \<le> 0" by simp
  have "get_unordered_scanners sample_env 0 sample_options [] [] =
     Inr (Some \<lparr>result_code = PERR_INVALID_SPLIT_COUNT sample_env, result_out = [],
                 result_info = None, result_sent = []\<rparr>)"
    by (rule invalid_split_count [OF z, THEN conjunct1])
  then show ?thesis by (simp add: sample_env_def)
qed

text \<open>
  C10: \<open>exist\<close> returns the code \<open>ttl\<close> returns for the same hash-key, sort-key, timeout
  and info pointer, whatever the \<open>ttl_seconds\<close> variable held before; it writes the same
  info and sends the same request.
\<close>

theorem exist_is_ttl:
  "exist env hash_key sortkey timeout_milliseconds info st =
     \<lparr>result_code = result_code (ttl env hash_key sortkey ttl_seconds timeout_milliseconds info st),
      result_out = (),
      result_info = result_info (ttl env hash_key sortkey ttl_seconds timeout_milliseconds info st),
      result_sent = result_sent (ttl env hash_key sortkey ttl_seconds timeout_milliseconds info st)\<rparr>"
  by (simp add: exist_def ttl_def Let_def)


end
